theory Spec2Isabelle
  imports Complex_Main
begin

section \<open>Values, frames and Python errors\<close>

text \<open>
  The module \<open>pdsql/util.py\<close> works on pandas DataFrames. A cell is null (\<open>None\<close> and
  \<open>NaN\<close> are one value here: line 44 of the source turns every null of the matched rows
  into \<open>NaN\<close>), a finite number, an infinity (\<open>Infty True\<close> is \<open>+inf\<close>, \<open>Infty False\<close> is
  \<open>-inf\<close>), a text or a boolean. A number is the real number that the int64 or floating
  cell denotes. Of the dtypes of pandas a column has one of float64, float32, int64, bool
  and object. A frame has labelled, typed columns and rows; a row is an association list
  from label to cell, in column order. The row index of pandas is not represented.
\<close>

datatype val = Null | Num real | Infty bool | Str string | Bool bool

datatype dtype = Float64 | Float32 | Int64 | Boolean | Object

datatype error =
    ValueError | KeyError | TypeError | AttributeError | ImportError | UnboundLocalError
  | Unsupported

type_synonym row = "(string \<times> val) list"

record DataFrame =
  schema :: "(string \<times> dtype) list"
  rows :: "row list"

definition columns :: "DataFrame \<Rightarrow> string list" where
  "columns df = map fst (schema df)"

definition cell :: "row \<Rightarrow> string \<Rightarrow> val" where
  "cell r c = (case map_of r c of Some v \<Rightarrow> v | None \<Rightarrow> Null)"

definition dtype_of :: "(string \<times> dtype) list \<Rightarrow> string \<Rightarrow> dtype" where
  "dtype_of s c = (case map_of s c of Some d \<Rightarrow> d | None \<Rightarrow> Object)"

definition key_of :: "string list \<Rightarrow> row \<Rightarrow> val list" where
  "key_of on r = map (cell r) on"

definition project :: "string list \<Rightarrow> row \<Rightarrow> row" where
  "project cs r = map (\<lambda>c. (c, cell r c)) cs"

text \<open>\<open>df[cs]\<close> with a list of labels: a \<open>KeyError\<close> when a label is missing.\<close>

definition getitem :: "DataFrame \<Rightarrow> string list \<Rightarrow> error + DataFrame" where
  "getitem df cs =
     (if set cs \<subseteq> set (columns df)
      then Inr \<lparr>schema = map (\<lambda>c. (c, dtype_of (schema df) c)) cs,
                rows = map (project cs) (rows df)\<rparr>
      else Inl KeyError)"

text \<open>A frame is well formed when its labels are distinct and every row has them.\<close>

definition wf_df :: "DataFrame \<Rightarrow> bool" where
  "wf_df df \<longleftrightarrow> distinct (columns df) \<and> (\<forall>r \<in> set (rows df). map fst r = columns df)"

definition unique_keys :: "DataFrame \<Rightarrow> string list \<Rightarrow> bool" where
  "unique_keys df on \<longleftrightarrow> distinct (map (key_of on) (rows df))"

section \<open>Python string helpers\<close>

primrec starts_with :: "string \<Rightarrow> string \<Rightarrow> bool" where
  "starts_with [] p = (p = [])"
| "starts_with (x # xs) p = (case p of [] \<Rightarrow> True | y # ys \<Rightarrow> x = y \<and> starts_with xs ys)"

text \<open>\<open>p in s\<close> on two strings: \<open>p\<close> occurs in \<open>s\<close> as a contiguous substring.\<close>

primrec str_in :: "string \<Rightarrow> string \<Rightarrow> bool" where
  "str_in p [] = (p = [])"
| "str_in p (x # xs) = (starts_with (x # xs) p \<or> str_in p xs)"

text \<open>\<open>c[:-2]\<close>: the string without its last two characters.\<close>

definition drop_last2 :: "string \<Rightarrow> string" where
  "drop_last2 c = take (length c - 2) c"

section \<open>Conversion of int64 cells to float64\<close>

text \<open>
  pandas stores a missing cell of a numeric column as \<open>NaN\<close>, so an int64 column that
  receives missing cells becomes a float64 column and its cells are converted; numpy
  converts an int64 operand the same way when the other operand of a comparison is
  floating. The conversion rounds to 53 significant bits, to nearest, ties to the even
  neighbour. For an integer of at most 64 bits \<open>excess_bits\<close> is the number of bits it has
  beyond 53.
\<close>

definition excess_bits :: "int \<Rightarrow> nat" where
  "excess_bits m = length (filter (\<lambda>j. 2 ^ (53 + j) \<le> m) [0, 1, 2, 3, 4, 5, 6, 7, 8, 9, 10])"

definition to_float64 :: "int \<Rightarrow> int" where
  "to_float64 n =
     (let m = \<bar>n\<bar>; k = excess_bits m; q = m div 2 ^ k; r = m mod 2 ^ k; h = 2 ^ k div 2;
          q' = (if 0 < k \<and> (h < r \<or> (r = h \<and> odd q)) then q + 1 else q)
      in sgn n * (q' * 2 ^ k))"

definition astype_float64 :: "val \<Rightarrow> val" where
  "astype_float64 v = (case v of Num x \<Rightarrow> Num (of_int (to_float64 \<lfloor>x\<rfloor>)) | _ \<Rightarrow> v)"

text \<open>\<open>astype d d' v\<close>: the cell \<open>v\<close> of a column of dtype \<open>d\<close> that becomes of dtype \<open>d'\<close>.\<close>

definition astype :: "dtype \<Rightarrow> dtype \<Rightarrow> val \<Rightarrow> val" where
  "astype d d' v = (if d = Int64 \<and> d' = Float64 then astype_float64 v else v)"

text \<open>
  \<open>promote d d' v\<close>: the cell \<open>v\<close> of a column of dtype \<open>d\<close> as numpy compares it with a
  column of dtype \<open>d'\<close>: int64 against a floating dtype is compared in float64.
\<close>

definition promote :: "dtype \<Rightarrow> dtype \<Rightarrow> val \<Rightarrow> val" where
  "promote d d' v = (if d = Int64 \<and> (d' = Float64 \<or> d' = Float32) then astype_float64 v else v)"

section \<open>The outer merge of line 39\<close>

text \<open>
  \<open>pd.merge(old_df, new_df, on=on, how='outer', indicator=True, suffixes=('_x', ''))\<close>.
  The labels of the result are the labels of \<open>old_df\<close>, where a non-key label that
  \<open>new_df\<close> has too gets the suffix \<open>_x\<close>, followed by the non-key labels of
  \<open>new_df\<close> unchanged. The indicator column \<open>_merge\<close> is kept as a tag beside each row.
  Keys match by equality, null keys included, and a key that occurs several times gives
  every pairing. The non-key columns of a side receive nulls when some row of the other
  side has no partner; they are then upcast (int64 to float64, with its cells converted,
  and bool to object).

  Not modelled, and answered with \<open>Unsupported\<close>: an empty key list, input frames with
  repeated labels, and a merge whose result would carry a label twice. pandas orders the
  rows of an outer merge by key; the model keeps the rows of \<open>old_df\<close> in their order,
  followed by the unmatched rows of \<open>new_df\<close>, so only statements that do not depend on
  the row order are made about it.
\<close>

datatype origin = left_only | right_only | both

record merged =
  mschema :: "(string \<times> dtype) list"
  mrows :: "(origin \<times> row) list"

definition suffix_x :: "string list \<Rightarrow> string list \<Rightarrow> string \<Rightarrow> string" where
  "suffix_x on rcols c = (if c \<notin> set on \<and> c \<in> set rcols then c @ ''_x'' else c)"

fun upcast :: "dtype \<Rightarrow> dtype" where
  "upcast Int64 = Float64"
| "upcast Boolean = Object"
| "upcast d = d"

text \<open>
  The dtype and the cells of a non-key column of dtype \<open>d\<close> in the merged frame; \<open>nulls\<close>
  says whether the column receives nulls.
\<close>

definition merged_dtype :: "bool \<Rightarrow> dtype \<Rightarrow> dtype" where
  "merged_dtype nulls d = (if nulls then upcast d else d)"

definition merged_cell :: "bool \<Rightarrow> dtype \<Rightarrow> val \<Rightarrow> val" where
  "merged_cell nulls d v = astype d (merged_dtype nulls d) v"

text \<open>Some row of \<open>b\<close> has a key that no row of \<open>a\<close> has: the columns of \<open>a\<close> receive nulls.\<close>

definition receives_nulls :: "DataFrame \<Rightarrow> DataFrame \<Rightarrow> string list \<Rightarrow> bool" where
  "receives_nulls a b on \<longleftrightarrow>
     (\<exists>r \<in> set (rows b). key_of on r \<notin> set (map (key_of on) (rows a)))"

definition left_part ::
  "string list \<Rightarrow> (string \<times> dtype) list \<Rightarrow> string list \<Rightarrow> bool \<Rightarrow> row option \<Rightarrow> row option \<Rightarrow> row" where
  "left_part on lschema rcols nulls ro rn =
     map (\<lambda>(c, d). (suffix_x on rcols c,
                if c \<in> set on
                then (case ro of Some r \<Rightarrow> cell r c
                      | None \<Rightarrow> (case rn of Some r \<Rightarrow> cell r c | None \<Rightarrow> Null))
                else merged_cell nulls d (case ro of Some r \<Rightarrow> cell r c | None \<Rightarrow> Null))) lschema"

definition right_part :: "string list \<Rightarrow> (string \<times> dtype) list \<Rightarrow> bool \<Rightarrow> row option \<Rightarrow> row" where
  "right_part on rschema nulls rn =
     map (\<lambda>(c, d). (c, merged_cell nulls d (case rn of Some r \<Rightarrow> cell r c | None \<Rightarrow> Null)))
         (filter (\<lambda>(c, d). c \<notin> set on) rschema)"

definition merged_row :: "DataFrame \<Rightarrow> DataFrame \<Rightarrow> string list \<Rightarrow> row option \<Rightarrow> row option \<Rightarrow> row" where
  "merged_row old_df new_df on ro rn =
     left_part on (schema old_df) (columns new_df) (receives_nulls old_df new_df on) ro rn
     @ right_part on (schema new_df) (receives_nulls new_df old_df on) rn"

definition merged_labels :: "string list \<Rightarrow> string list \<Rightarrow> string list \<Rightarrow> string list" where
  "merged_labels on lcols rcols =
     map (suffix_x on rcols) lcols @ filter (\<lambda>c. c \<notin> set on) rcols"

definition merged_schema :: "DataFrame \<Rightarrow> DataFrame \<Rightarrow> string list \<Rightarrow> (string \<times> dtype) list" where
  "merged_schema old_df new_df on =
     map (\<lambda>(c, d). (suffix_x on (columns new_df) c,
                     if c \<in> set on then d else merged_dtype (receives_nulls old_df new_df on) d))
         (schema old_df)
     @ map (\<lambda>(c, d). (c, merged_dtype (receives_nulls new_df old_df on) d))
         (filter (\<lambda>(c, d). c \<notin> set on) (schema new_df))"

definition left_rows :: "DataFrame \<Rightarrow> DataFrame \<Rightarrow> string list \<Rightarrow> (origin \<times> row) list" where
  "left_rows old_df new_df on =
     concat (map (\<lambda>ro.
       (case filter (\<lambda>rn. key_of on rn = key_of on ro) (rows new_df) of
          [] \<Rightarrow> [(left_only, merged_row old_df new_df on (Some ro) None)]
        | ms \<Rightarrow> map (\<lambda>rn. (both, merged_row old_df new_df on (Some ro) (Some rn))) ms))
       (rows old_df))"

definition right_rows :: "DataFrame \<Rightarrow> DataFrame \<Rightarrow> string list \<Rightarrow> (origin \<times> row) list" where
  "right_rows old_df new_df on =
     map (\<lambda>rn. (right_only, merged_row old_df new_df on None (Some rn)))
       (filter (\<lambda>rn. key_of on rn \<notin> set (map (key_of on) (rows old_df))) (rows new_df))"

definition merge_outer :: "DataFrame \<Rightarrow> DataFrame \<Rightarrow> string list \<Rightarrow> error + merged" where
  "merge_outer old_df new_df on =
     (let lcols = columns old_df; rcols = columns new_df
      in if on = [] \<or> \<not> distinct lcols \<or> \<not> distinct rcols then Inl Unsupported
         else if \<not> (set on \<subseteq> set lcols \<and> set on \<subseteq> set rcols) then Inl KeyError
         else if ''_merge'' \<in> set lcols \<or> ''_merge'' \<in> set rcols then Inl ValueError
         else if \<not> distinct (merged_labels on lcols rcols) then Inl Unsupported
         else Inr \<lparr>mschema = merged_schema old_df new_df on,
                   mrows = left_rows old_df new_df on @ right_rows old_df new_df on\<rparr>)"

text \<open>\<open>comp1.loc[comp1._merge == tag, cs]\<close>.\<close>

definition loc :: "merged \<Rightarrow> origin \<Rightarrow> string list \<Rightarrow> error + DataFrame" where
  "loc m tag cs =
     (if set cs \<subseteq> set (map fst (mschema m))
      then Inr \<lparr>schema = map (\<lambda>c. (c, dtype_of (mschema m) c)) cs,
                rows = map (project cs \<circ> snd) (filter (\<lambda>t. fst t = tag) (mrows m))\<rparr>
      else Inl KeyError)"

text \<open>\<open>comp1[comp1._merge == 'both'].drop('_merge', axis=1)\<close>.\<close>

definition both_rows :: "merged \<Rightarrow> DataFrame" where
  "both_rows m = \<lparr>schema = mschema m, rows = map snd (filter (\<lambda>t. fst t = both) (mrows m))\<rparr>"

section \<open>Cell comparison (lines 55 to 60)\<close>

text \<open>
  \<open>numpy.isclose(a, b)\<close> with its defaults \<open>rtol = 1e-05\<close>, \<open>atol = 1e-08\<close> and
  \<open>equal_nan = False\<close> tests \<open>|a - b| <= atol + rtol * |b|\<close> in float64 arithmetic, and
  compares by equality where an operand is not finite. Float64 arithmetic is not part of
  this development: the verdict of \<open>numpy.isclose\<close> on two finite numbers is the
  parameter \<open>close\<close> of the model. Equal numbers are close whatever the tolerance; a
  \<open>NaN\<close> is close to nothing; a boolean counts as 0 or 1; a text raises \<open>TypeError\<close>.
\<close>

definition rtol :: real where
  "rtol = 1 / 100000"

definition atol :: real where
  "atol = 1 / 100000000"

datatype npfloat = NaN | Finite real | Infinite bool

fun as_float :: "val \<Rightarrow> error + npfloat" where
  "as_float Null = Inr NaN"
| "as_float (Num x) = Inr (Finite x)"
| "as_float (Infty s) = Inr (Infinite s)"
| "as_float (Bool b) = Inr (Finite (if b then 1 else 0))"
| "as_float (Str s) = Inl TypeError"

fun close_float :: "(real \<Rightarrow> real \<Rightarrow> bool) \<Rightarrow> npfloat \<Rightarrow> npfloat \<Rightarrow> bool" where
  "close_float close (Finite u) (Finite v) = (u = v \<or> close u v)"
| "close_float close (Infinite s) (Infinite t) = (s = t)"
| "close_float close x y = False"

definition isclose :: "(real \<Rightarrow> real \<Rightarrow> bool) \<Rightarrow> val \<Rightarrow> val \<Rightarrow> error + bool" where
  "isclose close a b =
     (case as_float a of Inl e \<Rightarrow> Inl e
      | Inr x \<Rightarrow>
        (case as_float b of Inl e \<Rightarrow> Inl e
         | Inr y \<Rightarrow> Inr (close_float close x y)))"

text \<open>
  \<open>a != b\<close> on the cells of two Series: \<open>NaN\<close> differs from everything, itself included;
  Python compares a boolean with a number as 0 or 1; a text differs from every non-text.
\<close>

fun py_ne :: "val \<Rightarrow> val \<Rightarrow> bool" where
  "py_ne Null b = True"
| "py_ne a Null = True"
| "py_ne (Num x) (Num y) = (x \<noteq> y)"
| "py_ne (Num x) (Bool b) = (x \<noteq> (if b then 1 else 0))"
| "py_ne (Bool b) (Num x) = (x \<noteq> (if b then 1 else 0))"
| "py_ne (Bool a) (Bool b) = (a \<noteq> b)"
| "py_ne (Infty s) (Infty t) = (s \<noteq> t)"
| "py_ne (Str s) (Str t) = (s \<noteq> t)"
| "py_ne a b = True"

definition notnull :: "val \<Rightarrow> bool" where
  "notnull v = (v \<noteq> Null)"

text \<open>
  One cell of \<open>c2\<close> in the loop body, for an old column of dtype \<open>d\<close> and a new column of
  dtype \<open>d'\<close>: \<open>c1\<close> is \<open>~isclose\<close> when the old column is float64 and \<open>!=\<close> otherwise,
  and \<open>c2 = c1 & (old.notnull() | new.notnull())\<close>. numpy converts an int64 operand to
  float64 when the other one is floating.
\<close>

definition cell_differs ::
  "(real \<Rightarrow> real \<Rightarrow> bool) \<Rightarrow> dtype \<Rightarrow> dtype \<Rightarrow> val \<Rightarrow> val \<Rightarrow> error + bool" where
  "cell_differs close d d' a b =
     (case (if d = Float64
            then (case isclose close a (promote d' d b) of Inl e \<Rightarrow> Inl e | Inr t \<Rightarrow> Inr (\<not> t))
            else Inr (py_ne (promote d d' a) (promote d' d b))) of
        Inl e \<Rightarrow> Inl e
      | Inr c1 \<Rightarrow> Inr (c1 \<and> (notnull a \<or> notnull b)))"

text \<open>Sequencing of fallible steps: the first error is the result.\<close>

fun sequence :: "(error + 'a) list \<Rightarrow> error + 'a list" where
  "sequence [] = Inr []"
| "sequence (x # xs) =
     (case x of Inl e \<Rightarrow> Inl e
      | Inr v \<Rightarrow> (case sequence xs of Inl e \<Rightarrow> Inl e | Inr vs \<Rightarrow> Inr (v # vs)))"

text \<open>
  \<open>frame[c]\<close> followed by \<open>.dtype\<close>: a missing label is a \<open>KeyError\<close>; a label carried by
  several columns gives a DataFrame, which has no \<open>dtype\<close> (\<open>AttributeError\<close>).
\<close>

definition series_dtype :: "DataFrame \<Rightarrow> string \<Rightarrow> error + dtype" where
  "series_dtype df c =
     (case filter (\<lambda>p. fst p = c) (schema df) of
        [] \<Rightarrow> Inl KeyError
      | [p] \<Rightarrow> Inr (snd p)
      | _ \<Rightarrow> Inl AttributeError)"

text \<open>
  The body of the loop for one value column \<open>c\<close>, row by row over the matched rows:
  \<open>old_set\<close> and \<open>new_set\<close> have the same rows in the same order. When the old column is
  float64 and the new column has dtype object, \<open>isclose\<close> raises \<open>TypeError\<close>.
\<close>

definition comp_col ::
  "(real \<Rightarrow> real \<Rightarrow> bool) \<Rightarrow> DataFrame \<Rightarrow> DataFrame \<Rightarrow> string \<Rightarrow> error + bool list" where
  "comp_col close old_set new_set c =
     (case series_dtype old_set c of Inl e \<Rightarrow> Inl e
      | Inr d \<Rightarrow>
        (case series_dtype new_set c of Inl e \<Rightarrow> Inl e
         | Inr d' \<Rightarrow>
           if d = Float64 \<and> d' = Object then Inl TypeError
           else sequence (map (\<lambda>(ro, rn). cell_differs close d d' (cell ro c) (cell rn c))
                              (zip (rows old_set) (rows new_set)))))"

text \<open>\<open>pd.concat(comp_list, axis=1).any(1)\<close>: no column to concatenate is a \<open>ValueError\<close>.\<close>

definition any_axis1 :: "nat \<Rightarrow> bool list list \<Rightarrow> error + bool list" where
  "any_axis1 n comp_list =
     (if comp_list = [] then Inl ValueError
      else Inr (map (\<lambda>i. \<exists>col \<in> set comp_list. col ! i) [0..<n]))"

text \<open>\<open>old_set.rename(columns=old_cols_map)\<close> with \<open>old_cols_map = {c: c[:-2] ...}\<close>.\<close>

definition rename_x :: "string \<Rightarrow> string" where
  "rename_x c = (if str_in ''_x'' c then drop_last2 c else c)"

definition rename_columns :: "DataFrame \<Rightarrow> DataFrame" where
  "rename_columns df =
     \<lparr>schema = map (\<lambda>(c, d). (rename_x c, d)) (schema df),
      rows = map (map (\<lambda>(c, v). (rename_x c, v))) (rows df)\<rparr>"

text \<open>
  Line 44, \<open>comp2[comp2.isnull()] = np.nan\<close>: every null cell is overwritten with
  \<open>NaN\<close>, which is the null of this model.
\<close>

definition setitem_isnull :: "DataFrame \<Rightarrow> DataFrame" where
  "setitem_isnull df =
     df\<lparr>rows := map (map (\<lambda>(c, v). (c, if v = Null then Null else v))) (rows df)\<rparr>"

section \<open>compare_dfs\<close>

record comparison =
  diff :: DataFrame
  new :: DataFrame
  remove :: DataFrame

text \<open>
  Line 33, \<open>if ~np.in1d(old_df.columns, new_df.columns).any()\<close>: the method call binds
  tighter than \<open>~\<close>, so the test is the negation of "some label of \<open>old_df\<close> is a label of
  \<open>new_df\<close>".
\<close>

definition columns_check :: "DataFrame \<Rightarrow> DataFrame \<Rightarrow> bool" where
  "columns_check old_df new_df \<longleftrightarrow> \<not> (\<exists>c \<in> set (columns old_df). c \<in> set (columns new_df))"

text \<open>The first argument is the parameter \<open>close\<close>, the others are those of the source.\<close>

definition compare_dfs ::
  "(real \<Rightarrow> real \<Rightarrow> bool) \<Rightarrow> DataFrame \<Rightarrow> DataFrame \<Rightarrow> string list \<Rightarrow> error + comparison" where
  "compare_dfs close old_df new_df on =
     (if columns_check old_df new_df then Inl ValueError
      else
        let val_cols = filter (\<lambda>c. c \<notin> set on) (columns old_df);
            all_cols = columns old_df
        in case merge_outer old_df new_df on of Inl e \<Rightarrow> Inl e
           | Inr comp1 \<Rightarrow>
        (case loc comp1 left_only on of Inl e \<Rightarrow> Inl e
           | Inr rem1 \<Rightarrow>
        (case loc comp1 right_only all_cols of Inl e \<Rightarrow> Inl e
           | Inr add1 \<Rightarrow>
        (let comp2 = setitem_isnull (both_rows comp1);
             old_cols = on @ filter (str_in ''_x'') (columns comp2)
         in case getitem comp2 old_cols of Inl e \<Rightarrow> Inl e
            | Inr old_sel \<Rightarrow>
         (let old_set = rename_columns old_sel
          in case getitem comp2 all_cols of Inl e \<Rightarrow> Inl e
             | Inr new_set \<Rightarrow>
          (case sequence (map (comp_col close old_set new_set) val_cols) of Inl e \<Rightarrow> Inl e
             | Inr comp_list \<Rightarrow>
          (case any_axis1 (length (rows new_set)) comp_list of Inl e \<Rightarrow> Inl e
             | Inr comp_index \<Rightarrow>
           Inr \<lparr>diff = \<lparr>schema = schema new_set,
                         rows = map snd (filter fst (zip comp_index (rows new_set)))\<rparr>,
                 new = add1, remove = rem1\<rparr>)))))))"

section \<open>create_engine\<close>

text \<open>
  The environment of \<open>create_engine\<close>: whether \<open>import pymssql\<close> succeeds, for which URLs
  \<open>sqlalchemy.create_engine\<close> returns an engine (it raises when the DBAPI module of the
  URL cannot be imported), and for which URLs \<open>engine.connect()\<close> succeeds. The function
  returns the engine or raises, and prints lines on standard output.
\<close>

record env =
  pymssql_importable :: bool
  create_ok :: "string \<Rightarrow> bool"
  connect_ok :: "string \<Rightarrow> bool"

datatype engine = Engine string

definition sa_create_engine :: "env \<Rightarrow> string \<Rightarrow> error + engine" where
  "sa_create_engine e url = (if create_ok e url then Inr (Engine url) else Inl ImportError)"

text \<open>\<open>username\<close> and \<open>password\<close> are \<open>None\<close> or a string (lines 95 to 101).\<close>

definition credentials :: "string option \<Rightarrow> string option \<Rightarrow> string" where
  "credentials username password =
     (case username of
        Some u \<Rightarrow> (case password of Some pw \<Rightarrow> u @ '':'' @ pw | None \<Rightarrow> u) @ ''@''
      | None \<Rightarrow> [])"

definition pyodbc_url :: "string \<Rightarrow> string \<Rightarrow> string \<Rightarrow> string \<Rightarrow> string" where
  "pyodbc_url up server database driver = ''mssql+pyodbc://'' @ up @ server @ ''/'' @ database @ driver"

text \<open>
  The \<open>mssql\<close> branch (lines 103 to 138). Every \<open>except:\<close> is bare, so the first one
  also catches a failure of \<open>sqlalchemy.create_engine\<close> on the pymssql URL; the calls of
  \<open>sqlalchemy.create_engine\<close> on the pyodbc URLs stand outside the inner \<open>try\<close> blocks,
  within handlers, and their exceptions reach the caller.
\<close>

definition mssql_engine :: "env \<Rightarrow> string \<Rightarrow> string \<Rightarrow> string \<Rightarrow> (error + engine) \<times> string list" where
  "mssql_engine e up server database =
     (let url0 = ''mssql+pymssql://'' @ up @ server @ ''/'' @ database in
      if pymssql_importable e \<and> create_ok e url0 then (Inr (Engine url0), [])
      else
        let url1 = pyodbc_url up server database ''?driver=ODBC+Driver+17+for+SQL+Server'' in
        case sa_create_engine e url1 of Inl x \<Rightarrow> (Inl x, [])
        | Inr engine1 \<Rightarrow>
          if connect_ok e url1 then (Inr engine1, [])
          else
            let url2 = pyodbc_url up server database ''?driver=ODBC+Driver+13.1+for+SQL+Server'' in
            case sa_create_engine e url2 of Inl x \<Rightarrow> (Inl x, [])
            | Inr engine2 \<Rightarrow>
              if connect_ok e url2 then (Inr engine2, [])
              else
                let url3 = pyodbc_url up server database ''?driver=ODBC+Driver+13+for+SQL+Server'' in
                case sa_create_engine e url3 of Inl x \<Rightarrow> (Inl x, [])
                | Inr engine3 \<Rightarrow>
                  if connect_ok e url3 then (Inr engine3, [])
                  else
                    let url4 = pyodbc_url up server database ''?driver=ODBC+Driver+11+for+SQL+Server'' in
                    case sa_create_engine e url4 of Inl x \<Rightarrow> (Inl x, [])
                    | Inr engine4 \<Rightarrow>
                      if connect_ok e url4 then (Inr engine4, [])
                      else
                        let url5 = pyodbc_url up server database ''?driver=SQL+Server+Native+Client+11.0'' in
                        case sa_create_engine e url5 of Inl x \<Rightarrow> (Inl x, [])
                        | Inr engine5 \<Rightarrow>
                          if connect_ok e url5 then (Inr engine5, [])
                          else (Inr engine5, [''Install a proper ODBC mssql driver'']))"

text \<open>
  For a \<open>db_type\<close> outside the five names no branch binds \<open>engine\<close>, and \<open>return engine\<close>
  raises \<open>UnboundLocalError\<close>.
\<close>

definition create_engine ::
  "env \<Rightarrow> string \<Rightarrow> string \<Rightarrow> string \<Rightarrow> string option \<Rightarrow> string option \<Rightarrow> (error + engine) \<times> string list" where
  "create_engine e db_type server database username password =
     (let up = credentials username password in
      if db_type = ''mssql'' then mssql_engine e up server database
      else if db_type = ''postgresql''
        then (sa_create_engine e (''postgresql://'' @ up @ server @ ''/'' @ database), [])
      else if db_type = ''oracle''
        then (sa_create_engine e (''oracle://'' @ up @ server @ ''/'' @ database), [])
      else if db_type = ''mysql''
        then (sa_create_engine e (''mysql+mysqldb://'' @ up @ server @ ''/'' @ database), [])
      else if db_type = ''sqlite''
        then (sa_create_engine e ''sqlite:///:memory:'', [])
      else (Inl UnboundLocalError, []))"

text \<open>The five ODBC driver suffixes of the fallback ladder, in the order they are tried.\<close>

definition odbc_drivers :: "string list" where
  "odbc_drivers =
     [''?driver=ODBC+Driver+17+for+SQL+Server'', ''?driver=ODBC+Driver+13.1+for+SQL+Server'',
      ''?driver=ODBC+Driver+13+for+SQL+Server'', ''?driver=ODBC+Driver+11+for+SQL+Server'',
      ''?driver=SQL+Server+Native+Client+11.0'']"

section \<open>save_df\<close>

text \<open>
  The names the module \<open>os\<close> binds, as far as \<open>save_df\<close> looks them up: \<open>os.path\<close> is a
  module, and \<open>os\<close> has no attribute \<open>path_str\<close> (line 163 reads \<open>os.path_str\<close>, not the
  argument \<open>path_str\<close>).
\<close>

datatype pyval = PyStr string | PyModule string

definition os_module :: "string \<Rightarrow> pyval option" where
  "os_module name =
     (if name = ''path'' then Some (PyModule ''posixpath'')
      else if name = ''sep'' then Some (PyStr ''/'')
      else if name = ''extsep'' then Some (PyStr ''.'')
      else if name = ''curdir'' then Some (PyStr ''.'')
      else None)"

definition getattr_os :: "string \<Rightarrow> error + pyval" where
  "getattr_os name = (case os_module name of Some v \<Rightarrow> Inr v | None \<Rightarrow> Inl AttributeError)"

text \<open>
  \<open>os.path.splitext\<close>: the extension starts at the last dot of the last path component,
  unless only dots precede it there.
\<close>

primrec last_index :: "char \<Rightarrow> string \<Rightarrow> nat option" where
  "last_index ch [] = None"
| "last_index ch (x # xs) =
     (case last_index ch xs of Some i \<Rightarrow> Some (Suc i)
      | None \<Rightarrow> if x = ch then Some 0 else None)"

definition splitext :: "string \<Rightarrow> string \<times> string" where
  "splitext p =
     (let start = (case last_index CHR ''/'' p of Some i \<Rightarrow> Suc i | None \<Rightarrow> 0) in
      case last_index CHR ''.'' p of
        None \<Rightarrow> (p, [])
      | Some d \<Rightarrow>
          if start \<le> d \<and> (\<exists>k \<in> set [start..<d]. p ! k \<noteq> CHR ''.'')
          then (take d p, drop d p) else (p, []))"

text \<open>
  The file system maps a path to what was last written there: \<open>df.to_hdf(path_str, 'df',
  mode='w')\<close> or \<open>df.to_csv(path_str, index=index, header=header)\<close>. The tests of lines
  165 and 167 are \<open>path1[1] in '.h5'\<close> and \<open>path1[1] in '.csv'\<close>: the extension is a
  substring of the literal.
\<close>

datatype written = Hdf DataFrame | Csv DataFrame bool bool

type_synonym filesystem = "string \<Rightarrow> written option"

definition save_df ::
  "filesystem \<Rightarrow> DataFrame \<Rightarrow> string \<Rightarrow> bool \<Rightarrow> bool \<Rightarrow> (error + unit) \<times> filesystem" where
  "save_df fs df path_str index header =
     (case getattr_os ''path_str'' of
        Inl e \<Rightarrow> (Inl e, fs)
      | Inr (PyModule m) \<Rightarrow> (Inl TypeError, fs)
      | Inr (PyStr p) \<Rightarrow>
          let path1 = splitext p;
              fs1 = (if str_in (snd path1) ''.h5'' then fs(path_str \<mapsto> Hdf df) else fs);
              fs2 = (if str_in (snd path1) ''.csv''
                     then fs1(path_str \<mapsto> Csv df index header) else fs1)
          in (Inr (), fs2))"

section \<open>compare_dfs on a store\<close>

text \<open>
  Python passes \<open>old_df\<close>, \<open>new_df\<close> and \<open>on\<close> by reference, and three statements of
  \<open>compare_dfs\<close> write in place: line 44 into \<open>comp2\<close>, line 48 (\<open>extend\<close>) into
  \<open>old_cols\<close> and line 50 (\<open>rename(..., inplace=True)\<close>) into \<open>old_set\<close>. To see what
  they can reach, the function is written a second time over a store of objects: an
  address is an index of the store, \<open>pd.merge\<close>, \<open>.loc[...]\<close>, \<open>[...]\<close> and \<open>.copy()\<close>
  allocate a new object, and a write in place replaces the object at an address. The
  result holds the addresses of \<open>diff\<close>, \<open>new\<close> and \<open>remove\<close>. As for \<open>compare_dfs\<close>, the
  first argument is the parameter \<open>close\<close>.
\<close>

datatype obj = Frame DataFrame | Merged merged | StrList "string list"

type_synonym store = "obj list"

definition alloc :: "store \<Rightarrow> obj \<Rightarrow> nat \<times> store" where
  "alloc h x = (length h, h @ [x])"

definition frame_at :: "store \<Rightarrow> nat \<Rightarrow> DataFrame" where
  "frame_at h a = (case h ! a of Frame df \<Rightarrow> df | _ \<Rightarrow> \<lparr>schema = [], rows = []\<rparr>)"

definition merged_at :: "store \<Rightarrow> nat \<Rightarrow> merged" where
  "merged_at h a = (case h ! a of Merged m \<Rightarrow> m | _ \<Rightarrow> \<lparr>mschema = [], mrows = []\<rparr>)"

definition list_at :: "store \<Rightarrow> nat \<Rightarrow> string list" where
  "list_at h a = (case h ! a of StrList xs \<Rightarrow> xs | _ \<Rightarrow> [])"

definition is_frame :: "store \<Rightarrow> nat \<Rightarrow> bool" where
  "is_frame h a \<longleftrightarrow> a < length h \<and> (case h ! a of Frame df \<Rightarrow> True | _ \<Rightarrow> False)"

definition is_list :: "store \<Rightarrow> nat \<Rightarrow> bool" where
  "is_list h a \<longleftrightarrow> a < length h \<and> (case h ! a of StrList xs \<Rightarrow> True | _ \<Rightarrow> False)"

text \<open>Lines 33 to 43: the check, the merge and the three selections, each a new object.\<close>

definition merge_stage ::
  "store \<Rightarrow> nat \<Rightarrow> nat \<Rightarrow> nat \<Rightarrow> (error + (nat \<times> nat \<times> nat)) \<times> store" where
  "merge_stage h a_old a_new a_on =
     (if columns_check (frame_at h a_old) (frame_at h a_new) then (Inl ValueError, h)
      else
        case merge_outer (frame_at h a_old) (frame_at h a_new) (list_at h a_on) of
          Inl e \<Rightarrow> (Inl e, h)
        | Inr m \<Rightarrow>
          let (a_comp1, h1) = alloc h (Merged m) in
          case loc (merged_at h1 a_comp1) left_only (list_at h1 a_on) of
            Inl e \<Rightarrow> (Inl e, h1)
          | Inr r \<Rightarrow>
            let (a_rem1, h2) = alloc h1 (Frame r) in
            case loc (merged_at h2 a_comp1) right_only (columns (frame_at h2 a_old)) of
              Inl e \<Rightarrow> (Inl e, h2)
            | Inr a \<Rightarrow>
              let (a_add1, h3) = alloc h2 (Frame a);
                  (a_comp2, h4) = alloc h3 (Frame (both_rows (merged_at h3 a_comp1)))
              in (Inr (a_rem1, a_add1, a_comp2), h4))"

text \<open>
  Lines 44 to 51: the write into \<open>comp2\<close>, the copy of \<open>on\<close> and its extension, the
  selection of the old columns and its renaming in place, the selection of the new ones.
\<close>

definition select_stage ::
  "store \<Rightarrow> nat \<Rightarrow> nat \<Rightarrow> nat \<Rightarrow> (error + (nat \<times> nat)) \<times> store" where
  "select_stage h a_old a_on a_comp2 =
     (let h1 = h[a_comp2 := Frame (setitem_isnull (frame_at h a_comp2))];
          (a_old_cols, h2) = alloc h1 (StrList (list_at h1 a_on));
          h3 = h2[a_old_cols := StrList (list_at h2 a_old_cols
                  @ filter (str_in ''_x'') (columns (frame_at h2 a_comp2)))]
      in case getitem (frame_at h3 a_comp2) (list_at h3 a_old_cols) of
           Inl e \<Rightarrow> (Inl e, h3)
         | Inr old_sel \<Rightarrow>
           let (a_old_set, h4) = alloc h3 (Frame old_sel);
               h5 = h4[a_old_set := Frame (rename_columns (frame_at h4 a_old_set))]
           in case getitem (frame_at h5 a_comp2) (columns (frame_at h5 a_old)) of
                Inl e \<Rightarrow> (Inl e, h5)
              | Inr new_sel \<Rightarrow>
                let (a_new_set, h6) = alloc h5 (Frame new_sel)
                in (Inr (a_old_set, a_new_set), h6))"

text \<open>Lines 53 to 63: the loop reads \<open>old_set\<close> and \<open>new_set\<close>; \<open>diff_set\<close> is a new object.\<close>

definition alloc_diff :: "store \<Rightarrow> nat \<Rightarrow> bool list \<Rightarrow> (error + nat) \<times> store" where
  "alloc_diff h a_new_set comp_index =
     (let new_set = frame_at h a_new_set;
          (a_diff, h1) = alloc h (Frame \<lparr>schema = schema new_set,
                                   rows = map snd (filter fst (zip comp_index (rows new_set)))\<rparr>)
      in (Inr a_diff, h1))"

definition diff_stage ::
  "(real \<Rightarrow> real \<Rightarrow> bool) \<Rightarrow> store \<Rightarrow> nat \<Rightarrow> nat \<Rightarrow> nat \<Rightarrow> nat \<Rightarrow> (error + nat) \<times> store" where
  "diff_stage close h a_old a_on a_old_set a_new_set =
     (let val_cols = filter (\<lambda>c. c \<notin> set (list_at h a_on)) (columns (frame_at h a_old))
      in case sequence (map (comp_col close (frame_at h a_old_set) (frame_at h a_new_set)) val_cols) of
           Inl e \<Rightarrow> (Inl e, h)
         | Inr comp_list \<Rightarrow>
           (case any_axis1 (length (rows (frame_at h a_new_set))) comp_list of
              Inl e \<Rightarrow> (Inl e, h)
            | Inr comp_index \<Rightarrow>
              alloc_diff h a_new_set comp_index))"

definition compare_dfs_st ::
  "(real \<Rightarrow> real \<Rightarrow> bool) \<Rightarrow> store \<Rightarrow> nat \<Rightarrow> nat \<Rightarrow> nat \<Rightarrow> (error + (nat \<times> nat \<times> nat)) \<times> store" where
  "compare_dfs_st close h a_old a_new a_on =
     (if \<not> (is_frame h a_old \<and> is_frame h a_new) then (Inl AttributeError, h)
      else if \<not> is_list h a_on then (Inl TypeError, h)
      else
        case merge_stage h a_old a_new a_on of
          (Inl e, h1) \<Rightarrow> (Inl e, h1)
        | (Inr (a_rem1, a_add1, a_comp2), h1) \<Rightarrow>
          (case select_stage h1 a_old a_on a_comp2 of
             (Inl e, h2) \<Rightarrow> (Inl e, h2)
           | (Inr (a_old_set, a_new_set), h2) \<Rightarrow>
             (case diff_stage close h2 a_old a_on a_old_set a_new_set of
                (Inl e, h3) \<Rightarrow> (Inl e, h3)
              | (Inr a_diff, h3) \<Rightarrow> (Inr (a_diff, a_add1, a_rem1), h3))))"

section \<open>Notions used to state the properties\<close>

text \<open>
  The pairs of an old and a new row with the same key, in the order of the merge; the
  dtype and the cell that column \<open>c\<close> of an old or a new row has in the merged frame;
  and the test of the loop body on one pair of rows.
\<close>

definition matched_pairs :: "DataFrame \<Rightarrow> DataFrame \<Rightarrow> string list \<Rightarrow> (row \<times> row) list" where
  "matched_pairs old_df new_df on =
     concat (map (\<lambda>ro. map (Pair ro) (filter (\<lambda>rn. key_of on rn = key_of on ro) (rows new_df)))
                 (rows old_df))"

definition val_cols :: "DataFrame \<Rightarrow> string list \<Rightarrow> string list" where
  "val_cols old_df on = filter (\<lambda>c. c \<notin> set on) (columns old_df)"

definition old_dtype :: "DataFrame \<Rightarrow> DataFrame \<Rightarrow> string list \<Rightarrow> string \<Rightarrow> dtype" where
  "old_dtype old_df new_df on c =
     merged_dtype (receives_nulls old_df new_df on) (dtype_of (schema old_df) c)"

definition new_dtype :: "DataFrame \<Rightarrow> DataFrame \<Rightarrow> string list \<Rightarrow> string \<Rightarrow> dtype" where
  "new_dtype old_df new_df on c =
     merged_dtype (receives_nulls new_df old_df on) (dtype_of (schema new_df) c)"

definition old_cell :: "DataFrame \<Rightarrow> DataFrame \<Rightarrow> string list \<Rightarrow> row \<Rightarrow> string \<Rightarrow> val" where
  "old_cell old_df new_df on ro c =
     merged_cell (receives_nulls old_df new_df on) (dtype_of (schema old_df) c) (cell ro c)"

definition new_cell :: "DataFrame \<Rightarrow> DataFrame \<Rightarrow> string list \<Rightarrow> row \<Rightarrow> string \<Rightarrow> val" where
  "new_cell old_df new_df on rn c =
     merged_cell (receives_nulls new_df old_df on) (dtype_of (schema new_df) c) (cell rn c)"

text \<open>A row of \<open>new_df\<close> as \<open>diff\<close> and \<open>new\<close> carry it: laid out in the columns of \<open>old_df\<close>.\<close>

definition out_row :: "DataFrame \<Rightarrow> DataFrame \<Rightarrow> string list \<Rightarrow> row \<Rightarrow> row" where
  "out_row old_df new_df on rn =
     map (\<lambda>c. (c, if c \<in> set on then cell rn c else new_cell old_df new_df on rn c))
         (columns old_df)"

definition col_changed ::
  "(real \<Rightarrow> real \<Rightarrow> bool) \<Rightarrow> DataFrame \<Rightarrow> DataFrame \<Rightarrow> string list \<Rightarrow> row \<Rightarrow> row \<Rightarrow> string \<Rightarrow> bool" where
  "col_changed close old_df new_df on ro rn c \<longleftrightarrow>
     cell_differs close (old_dtype old_df new_df on c) (new_dtype old_df new_df on c)
       (old_cell old_df new_df on ro c) (new_cell old_df new_df on rn c) = Inr True"

definition row_changed ::
  "(real \<Rightarrow> real \<Rightarrow> bool) \<Rightarrow> DataFrame \<Rightarrow> DataFrame \<Rightarrow> string list \<Rightarrow> row \<times> row \<Rightarrow> bool" where
  "row_changed close old_df new_df on p \<longleftrightarrow>
     (\<exists>c \<in> set (val_cols old_df on). col_changed close old_df new_df on (fst p) (snd p) c)"

text \<open>
  The inputs for which \<open>compare_dfs\<close> is shown to return. The cells of a frame have the
  type its schema gives: a floating column holds numbers, infinities and nulls, an int64
  column integers of 64 bits, a bool column booleans, an object column texts and nulls.
  No label contains \<open>_x\<close> or is \<open>_merge\<close>, the names that the merge and lines 47 to 50
  use. The two frames have the same schema, the key columns are among the labels and
  identify the rows of each frame, and there is a column that is not a key.
\<close>

fun conforms :: "dtype \<Rightarrow> val \<Rightarrow> bool" where
  "conforms Object v = (case v of Null \<Rightarrow> True | Str s \<Rightarrow> True | _ \<Rightarrow> False)"
| "conforms Boolean v = (case v of Bool b \<Rightarrow> True | _ \<Rightarrow> False)"
| "conforms Int64 v =
     (case v of Num x \<Rightarrow> of_int \<lfloor>x\<rfloor> = x \<and> - (2 ^ 63) \<le> x \<and> x < 2 ^ 63 | _ \<Rightarrow> False)"
| "conforms d v = (case v of Null \<Rightarrow> True | Num x \<Rightarrow> True | Infty s \<Rightarrow> True | _ \<Rightarrow> False)"

definition well_typed :: "DataFrame \<Rightarrow> bool" where
  "well_typed df \<longleftrightarrow>
     (\<forall>r \<in> set (rows df). \<forall>c \<in> set (columns df). conforms (dtype_of (schema df) c) (cell r c))"

definition clean_labels :: "DataFrame \<Rightarrow> bool" where
  "clean_labels df \<longleftrightarrow>
     (\<forall>c \<in> set (columns df). \<not> str_in ''_x'' c) \<and> ''_merge'' \<notin> set (columns df)"

definition valid_inputs :: "DataFrame \<Rightarrow> DataFrame \<Rightarrow> string list \<Rightarrow> bool" where
  "valid_inputs old_df new_df on \<longleftrightarrow>
     schema old_df = schema new_df \<and> wf_df old_df \<and> wf_df new_df \<and> clean_labels old_df \<and>
     well_typed old_df \<and> well_typed new_df \<and>
     on \<noteq> [] \<and> distinct on \<and> set on \<subseteq> set (columns old_df) \<and> val_cols old_df on \<noteq> [] \<and>
     unique_keys old_df on \<and> unique_keys new_df on"

text \<open>
  The tolerance of \<open>numpy.isclose\<close> at a new value \<open>v\<close>, and the test in exact
  arithmetic, one of the functions that \<open>close\<close> can be.
\<close>

definition tolerance :: "real \<Rightarrow> real" where
  "tolerance v = atol + rtol * \<bar>v\<bar>"

definition exact_close :: "real \<Rightarrow> real \<Rightarrow> bool" where
  "exact_close u v \<longleftrightarrow> \<bar>u - v\<bar> \<le> tolerance v"

section \<open>Example inputs\<close>

text \<open>
  Two snapshots of a table with the key \<open>id\<close>, a float64 column \<open>val\<close> and a text
  column \<open>note\<close>. Keys 1, 2 and 3 are in both; key 4 is only in the old one, key 5 only
  in the new one.
\<close>

definition ex_schema :: "(string \<times> dtype) list" where
  "ex_schema = [(''id'', Int64), (''val'', Float64), (''note'', Object)]"

definition ex_row :: "real \<Rightarrow> val \<Rightarrow> val \<Rightarrow> row" where
  "ex_row i v n = [(''id'', Num i), (''val'', v), (''note'', n)]"

definition ex_old :: DataFrame where
  "ex_old = \<lparr>schema = ex_schema,
             rows = [ex_row 1 (Num 1) Null, ex_row 2 Null (Str ''a''),
                     ex_row 3 (Num 1) (Str ''b''), ex_row 4 (Num 5) (Str ''c'')]\<rparr>"

definition ex_new :: DataFrame where
  "ex_new = \<lparr>schema = ex_schema,
             rows = [ex_row 1 (Num (10000001 / 10000000)) Null, ex_row 2 (Num 7) (Str ''a''),
                     ex_row 3 (Num (11 / 10)) (Str ''b''), ex_row 5 (Num 9) (Str ''d'')]\<rparr>"

definition ex_result :: comparison where
  "ex_result =
     \<lparr>diff = \<lparr>schema = ex_schema,
               rows = [ex_row 2 (Num 7) (Str ''a''), ex_row 3 (Num (11 / 10)) (Str ''b'')]\<rparr>,
      new = \<lparr>schema = ex_schema, rows = [ex_row 5 (Num 9) (Str ''d'')]\<rparr>,
      remove = \<lparr>schema = [(''id'', Int64)], rows = [[(''id'', Num 4)]]\<rparr>\<rparr>"

text \<open>A new snapshot with one more column than the old one, and tables of keys alone.\<close>

definition ex_wide :: DataFrame where
  "ex_wide = \<lparr>schema = ex_schema @ [(''extra'', Object)],
              rows = [ex_row 1 (Num 1) Null @ [(''extra'', Str ''z'')]]\<rparr>"

definition key_only :: "real list \<Rightarrow> DataFrame" where
  "key_only ks = \<lparr>schema = [(''id'', Int64)], rows = map (\<lambda>k. [(''id'', Num k)]) ks\<rparr>"

text \<open>
  A pair of one-row snapshots whose column \<open>val\<close> has dtype float32; both cells are
  float32 numbers, \<open>1\<close> and its successor \<open>1 + 2^-23\<close>.
\<close>

definition ex_f32 :: "real \<Rightarrow> DataFrame" where
  "ex_f32 v = \<lparr>schema = [(''id'', Int64), (''val'', Float32)],
               rows = [[(''id'', Num 1), (''val'', Num v)]]\<rparr>"

text \<open>
  An old snapshot whose column \<open>val\<close> is empty, which pandas reads as float64 with
  \<open>NaN\<close>, and a new snapshot where the column holds a text.
\<close>

definition ex_empty_col :: DataFrame where
  "ex_empty_col = \<lparr>schema = [(''id'', Int64), (''val'', Float64)],
                   rows = [[(''id'', Num 1), (''val'', Null)]]\<rparr>"

definition ex_text_col :: DataFrame where
  "ex_text_col = \<lparr>schema = [(''id'', Int64), (''val'', Object)],
                  rows = [[(''id'', Num 1), (''val'', Str ''a'')]]\<rparr>"

text \<open>
  Two snapshots with an int64 column \<open>n\<close> and disjoint keys; the new row holds
  \<open>2^53 + 1\<close>, which is not a float64 number.
\<close>

definition ex_int :: "real \<Rightarrow> real \<Rightarrow> DataFrame" where
  "ex_int k n = \<lparr>schema = [(''id'', Int64), (''n'', Int64)],
                 rows = [[(''id'', Num k), (''n'', Num n)]]\<rparr>"

text \<open>An environment without pymssql in which no ODBC driver connects.\<close>

definition ex_env :: env where
  "ex_env = \<lparr>pymssql_importable = False, create_ok = (\<lambda>url. True), connect_ok = (\<lambda>url. False)\<rparr>"

section \<open>Lemmas about the model\<close>

subsection \<open>Cells, projections and merged rows\<close>

lemma sequence_map_Inr: "sequence (map Inr ys) = Inr ys"
  by (induction ys) auto

lemma sequence_Inr_iff: "sequence xs = Inr ys \<longleftrightarrow> xs = map Inr ys"
proof
  show "sequence xs = Inr ys \<Longrightarrow> xs = map Inr ys"
    by (induction xs arbitrary: ys) (auto split: sum.splits)
qed (simp add: sequence_map_Inr)

lemma setitem_isnull_id: "setitem_isnull df = df"
proof -
  have "(\<lambda>(c, v). (c, if v = Null then Null else v)) = (id :: string \<times> val \<Rightarrow> _)"
    by (auto simp: fun_eq_iff)
  then show ?thesis by (simp add: setitem_isnull_def)
qed

lemma cell_eq: "distinct (map fst r) \<Longrightarrow> (c, v) \<in> set r \<Longrightarrow> cell r c = v"
  by (simp add: cell_def)

lemma dtype_of_eq: "distinct (map fst s) \<Longrightarrow> (c, d) \<in> set s \<Longrightarrow> dtype_of s c = d"
  by (simp add: dtype_of_def)

lemma cell_project: "c \<in> set cs \<Longrightarrow> cell (project cs r) c = cell r c"
  by (simp add: cell_def project_def map_of_map_restrict)

lemma project_cong: "(\<And>c. c \<in> set cs \<Longrightarrow> cell r c = cell r' c) \<Longrightarrow> project cs r = project cs r'"
  by (simp add: project_def)

lemma key_of_eq_iff: "key_of on r = key_of on r' \<longleftrightarrow> (\<forall>c \<in> set on. cell r c = cell r' c)"
  by (simp add: key_of_def)

lemma key_of_project: "set on \<subseteq> set cs \<Longrightarrow> key_of on (project cs r) = key_of on r"
  by (auto simp: key_of_def cell_project)

lemma fst_filter_schema:
  "map fst (filter (\<lambda>(c, d). c \<notin> set on) s) = filter (\<lambda>c. c \<notin> set on) (map fst s)"
  by (induction s) auto

lemma fst_merged_row:
  "map fst (merged_row old_df new_df on ro rn) = merged_labels on (columns old_df) (columns new_df)"
  by (simp add: merged_row_def left_part_def right_part_def merged_labels_def columns_def
        comp_def case_prod_unfold fst_filter_schema[unfolded case_prod_unfold])

lemma fst_merged_schema:
  "map fst (merged_schema old_df new_df on) = merged_labels on (columns old_df) (columns new_df)"
  by (simp add: merged_schema_def merged_labels_def columns_def
        comp_def case_prod_unfold fst_filter_schema[unfolded case_prod_unfold])

lemma cell_merged_left:
  assumes "distinct (merged_labels on (columns old_df) (columns new_df))" "(c, d) \<in> set (schema old_df)"
  shows "cell (merged_row old_df new_df on ro rn) (suffix_x on (columns new_df) c) =
          (if c \<in> set on
           then (case ro of Some r \<Rightarrow> cell r c
                 | None \<Rightarrow> (case rn of Some r \<Rightarrow> cell r c | None \<Rightarrow> Null))
           else merged_cell (receives_nulls old_df new_df on) d
                  (case ro of Some r \<Rightarrow> cell r c | None \<Rightarrow> Null))"
proof (rule cell_eq)
  show "distinct (map fst (merged_row old_df new_df on ro rn))"
    using assms(1) by (simp only: fst_merged_row)
  show "(suffix_x on (columns new_df) c,
          if c \<in> set on
           then (case ro of Some r \<Rightarrow> cell r c
                 | None \<Rightarrow> (case rn of Some r \<Rightarrow> cell r c | None \<Rightarrow> Null))
           else merged_cell (receives_nulls old_df new_df on) d
                  (case ro of Some r \<Rightarrow> cell r c | None \<Rightarrow> Null))
        \<in> set (merged_row old_df new_df on ro rn)"
    using assms(2) by (force simp: merged_row_def left_part_def)
qed

lemma cell_merged_right:
  assumes "distinct (merged_labels on (columns old_df) (columns new_df))"
    "(c, d) \<in> set (schema new_df)" "c \<notin> set on"
  shows "cell (merged_row old_df new_df on ro rn) c =
           merged_cell (receives_nulls new_df old_df on) d
             (case rn of Some r \<Rightarrow> cell r c | None \<Rightarrow> Null)"
proof (rule cell_eq)
  show "distinct (map fst (merged_row old_df new_df on ro rn))"
    using assms(1) by (simp only: fst_merged_row)
  show "(c, merged_cell (receives_nulls new_df old_df on) d
             (case rn of Some r \<Rightarrow> cell r c | None \<Rightarrow> Null))
        \<in> set (merged_row old_df new_df on ro rn)"
    using assms(2,3) by (force simp: merged_row_def right_part_def)
qed

lemma dtype_merged_left:
  assumes "distinct (merged_labels on (columns old_df) (columns new_df))" "(c, d) \<in> set (schema old_df)"
  shows "dtype_of (merged_schema old_df new_df on) (suffix_x on (columns new_df) c) =
          (if c \<in> set on then d else merged_dtype (receives_nulls old_df new_df on) d)"
proof (rule dtype_of_eq)
  show "distinct (map fst (merged_schema old_df new_df on))"
    using assms(1) by (simp only: fst_merged_schema)
  show "(suffix_x on (columns new_df) c,
          if c \<in> set on then d else merged_dtype (receives_nulls old_df new_df on) d)
        \<in> set (merged_schema old_df new_df on)"
    using assms(2) by (force simp: merged_schema_def)
qed

lemma dtype_merged_right:
  assumes "distinct (merged_labels on (columns old_df) (columns new_df))"
    "(c, d) \<in> set (schema new_df)" "c \<notin> set on"
  shows "dtype_of (merged_schema old_df new_df on) c = merged_dtype (receives_nulls new_df old_df on) d"
proof (rule dtype_of_eq)
  show "distinct (map fst (merged_schema old_df new_df on))"
    using assms(1) by (simp only: fst_merged_schema)
  show "(c, merged_dtype (receives_nulls new_df old_df on) d) \<in> set (merged_schema old_df new_df on)"
    using assms(2,3) by (force simp: merged_schema_def)
qed

lemma suffix_x_key: "c \<in> set on \<Longrightarrow> suffix_x on rc c = c"
  by (simp add: suffix_x_def)

lemma suffix_x_val: "c \<notin> set on \<Longrightarrow> c \<in> set rc \<Longrightarrow> suffix_x on rc c = c @ ''_x''"
  by (simp add: suffix_x_def)

lemma schema_entry:
  assumes "distinct (columns df)" "c \<in> set (columns df)"
  shows "(c, dtype_of (schema df) c) \<in> set (schema df)"
proof -
  from assms(2) obtain d where d: "(c, d) \<in> set (schema df)" by (auto simp: columns_def)
  with assms(1) have "dtype_of (schema df) c = d"
    by (intro dtype_of_eq) (simp_all add: columns_def)
  with d show ?thesis by simp
qed

subsection \<open>The rows of the merge by origin\<close>

lemma merge_outer_InrD:
  assumes "merge_outer old_df new_df on = Inr m"
  shows "on \<noteq> []" "distinct (columns old_df)" "distinct (columns new_df)"
    "set on \<subseteq> set (columns old_df)" "set on \<subseteq> set (columns new_df)"
    "distinct (merged_labels on (columns old_df) (columns new_df))"
    "mrows m = left_rows old_df new_df on @ right_rows old_df new_df on"
    "mschema m = merged_schema old_df new_df on"
  using assms by (auto simp: merge_outer_def Let_def split: if_splits)

lemma concat_map_if: "concat (map (\<lambda>x. if Q x then [g x] else []) xs) = map g (filter Q xs)"
  by (induction xs) auto

lemma tag_left_rows:
  "filter (\<lambda>t. fst t = left_only) (left_rows old_df new_df on) =
     map (\<lambda>ro. (left_only, merged_row old_df new_df on (Some ro) None))
       (filter (\<lambda>ro. key_of on ro \<notin> set (map (key_of on) (rows new_df))) (rows old_df))"
proof -
  have "filter (\<lambda>t. fst t = left_only)
          (case filter (\<lambda>rn. key_of on rn = key_of on ro) (rows new_df) of
             [] \<Rightarrow> [(left_only, merged_row old_df new_df on (Some ro) None)]
           | ms \<Rightarrow> map (\<lambda>rn. (both, merged_row old_df new_df on (Some ro) (Some rn))) ms)
        = (if key_of on ro \<notin> set (map (key_of on) (rows new_df))
           then [(left_only, merged_row old_df new_df on (Some ro) None)] else [])" for ro
  proof (cases "filter (\<lambda>rn. key_of on rn = key_of on ro) (rows new_df)")
    case Nil
    then show ?thesis by (auto simp: filter_empty_conv)
  next
    case (Cons a as)
    then have "a \<in> set (filter (\<lambda>rn. key_of on rn = key_of on ro) (rows new_df))" by simp
    then have "a \<in> set (rows new_df)" "key_of on a = key_of on ro" by auto
    then have "key_of on ro \<in> set (map (key_of on) (rows new_df))"
      by (metis image_eqI set_map)
    with Cons show ?thesis by (simp add: filter_empty_conv)
  qed
  then show ?thesis
    by (simp add: left_rows_def filter_concat comp_def concat_map_if)
qed

lemma tag_both_rows:
  "map snd (filter (\<lambda>t. fst t = both) (left_rows old_df new_df on)) =
     map (\<lambda>(ro, rn). merged_row old_df new_df on (Some ro) (Some rn))
       (matched_pairs old_df new_df on)"
proof -
  have "map snd (filter (\<lambda>t. fst t = both)
          (case filter (\<lambda>rn. key_of on rn = key_of on ro) (rows new_df) of
             [] \<Rightarrow> [(left_only, merged_row old_df new_df on (Some ro) None)]
           | ms \<Rightarrow> map (\<lambda>rn. (both, merged_row old_df new_df on (Some ro) (Some rn))) ms))
        = map (\<lambda>(ro, rn). merged_row old_df new_df on (Some ro) (Some rn))
            (map (Pair ro) (filter (\<lambda>rn. key_of on rn = key_of on ro) (rows new_df)))" for ro
    by (cases "filter (\<lambda>rn. key_of on rn = key_of on ro) (rows new_df)") (simp_all add: comp_def)
  then show ?thesis
    by (simp add: left_rows_def matched_pairs_def filter_concat map_concat comp_def)
qed

lemma tag_right_left_rows: "filter (\<lambda>t. fst t = right_only) (left_rows old_df new_df on) = []"
  by (auto simp: left_rows_def filter_empty_conv split: list.splits)

lemma tag_right_rows:
  "filter (\<lambda>t. fst t = tag) (right_rows old_df new_df on) =
     (if tag = right_only then right_rows old_df new_df on else [])"
  by (auto simp: right_rows_def filter_empty_conv)

lemma matched_pairs_iff:
  "(ro, rn) \<in> set (matched_pairs old_df new_df on) \<longleftrightarrow>
     ro \<in> set (rows old_df) \<and> rn \<in> set (rows new_df) \<and> key_of on rn = key_of on ro"
  by (auto simp: matched_pairs_def)

lemma both_rows_rows:
  assumes "merge_outer old_df new_df on = Inr m"
  shows "rows (both_rows m) =
     map (\<lambda>(ro, rn). merged_row old_df new_df on (Some ro) (Some rn))
       (matched_pairs old_df new_df on)"
  using merge_outer_InrD(7)[OF assms]
  by (simp add: both_rows_def tag_right_rows tag_both_rows)

subsection \<open>The cells of the merged rows\<close>

lemma cell_merged_key:
  assumes "distinct (merged_labels on (columns old_df) (columns new_df))"
    "c \<in> set on" "set on \<subseteq> set (columns old_df)"
  shows "cell (merged_row old_df new_df on ro rn) c =
           (case ro of Some r \<Rightarrow> cell r c
            | None \<Rightarrow> (case rn of Some r \<Rightarrow> cell r c | None \<Rightarrow> Null))"
proof -
  from assms(2,3) obtain d where "(c, d) \<in> set (schema old_df)"
    by (auto simp: columns_def)
  from cell_merged_left[OF assms(1) this, of ro rn] show ?thesis
    using assms(2) by (simp add: suffix_x_key)
qed

lemma key_of_merged:
  assumes "distinct (merged_labels on (columns old_df) (columns new_df))"
    "set on \<subseteq> set (columns old_df)"
  shows "key_of on (merged_row old_df new_df on (Some ro) rn) = key_of on ro"
    and "key_of on (merged_row old_df new_df on None (Some r)) = key_of on r"
  by (simp_all add: key_of_eq_iff cell_merged_key[OF assms(1) _ assms(2)])

lemma cell_merged_old:
  assumes "distinct (merged_labels on (columns old_df) (columns new_df))"
    "distinct (columns old_df)"
    "c \<in> set (columns old_df)" "c \<notin> set on" "c \<in> set (columns new_df)"
  shows "cell (merged_row old_df new_df on (Some ro) rn) (c @ ''_x'') = old_cell old_df new_df on ro c"
  using cell_merged_left[OF assms(1) schema_entry[OF assms(2,3)], of "Some ro" rn] assms(4,5)
  by (simp add: suffix_x_val old_cell_def)

lemma cell_merged_new:
  assumes "distinct (merged_labels on (columns old_df) (columns new_df))"
    "distinct (columns new_df)"
    "c \<in> set (columns new_df)" "c \<notin> set on"
  shows "cell (merged_row old_df new_df on ro (Some rn)) c = new_cell old_df new_df on rn c"
  using cell_merged_right[OF assms(1) schema_entry[OF assms(2,3)] assms(4), of ro "Some rn"]
  by (simp add: new_cell_def)

lemma dtype_merged_old:
  assumes "distinct (merged_labels on (columns old_df) (columns new_df))"
    "distinct (columns old_df)"
    "c \<in> set (columns old_df)" "c \<notin> set on" "c \<in> set (columns new_df)"
  shows "dtype_of (merged_schema old_df new_df on) (c @ ''_x'') = old_dtype old_df new_df on c"
  using dtype_merged_left[OF assms(1) schema_entry[OF assms(2,3)]] assms(4,5)
  by (simp add: suffix_x_val old_dtype_def)

lemma dtype_merged_new:
  assumes "distinct (merged_labels on (columns old_df) (columns new_df))"
    "distinct (columns new_df)"
    "c \<in> set (columns new_df)" "c \<notin> set on"
  shows "dtype_of (merged_schema old_df new_df on) c = new_dtype old_df new_df on c"
  using dtype_merged_right[OF assms(1) schema_entry[OF assms(2,3)] assms(4)]
  by (simp add: new_dtype_def)

subsection \<open>The selections \<open>rem1\<close> and \<open>add1\<close>\<close>

lemma project_key_left:
  assumes "distinct (merged_labels on (columns old_df) (columns new_df))"
    "set on \<subseteq> set (columns old_df)"
  shows "project on (merged_row old_df new_df on (Some ro) rn) = project on ro"
  by (rule project_cong) (simp add: cell_merged_key[OF assms(1) _ assms(2)])

lemma project_all_new:
  assumes d: "distinct (merged_labels on (columns old_df) (columns new_df))"
    and dn: "distinct (columns new_df)"
    and on: "set on \<subseteq> set (columns old_df)"
    and sub: "set (columns old_df) \<subseteq> set (columns new_df)"
    and k: "\<forall>ro. ro0 = Some ro \<longrightarrow> key_of on ro = key_of on rn"
  shows "project (columns old_df) (merged_row old_df new_df on ro0 (Some rn)) = out_row old_df new_df on rn"
  unfolding project_def out_row_def
proof (rule map_cong[OF refl])
  fix c assume c: "c \<in> set (columns old_df)"
  show "(c, cell (merged_row old_df new_df on ro0 (Some rn)) c) =
        (c, if c \<in> set on then cell rn c else new_cell old_df new_df on rn c)"
  proof (cases "c \<in> set on")
    case True
    then show ?thesis
      using k cell_merged_key[OF d True on, of ro0 "Some rn"]
      by (auto simp: key_of_eq_iff split: option.splits)
  next
    case False
    from c sub have "c \<in> set (columns new_df)" by auto
    from cell_merged_new[OF d dn this False] False show ?thesis by simp
  qed
qed

lemma key_of_out_row:
  "set on \<subseteq> set (columns old_df) \<Longrightarrow> key_of on (out_row old_df new_df on rn) = key_of on rn"
proof -
  assume on: "set on \<subseteq> set (columns old_df)"
  have "cell (out_row old_df new_df on rn) c = cell rn c" if "c \<in> set on" for c
  proof -
    from that on have c: "c \<in> set (columns old_df)" by auto
    have "map_of (map (\<lambda>c. (c, if c \<in> set on then cell rn c else new_cell old_df new_df on rn c))
            (columns old_df)) c = Some (if c \<in> set on then cell rn c else new_cell old_df new_df on rn c)"
      using c by (simp add: map_of_map_restrict)
    with that show ?thesis by (simp add: cell_def out_row_def)
  qed
  then show ?thesis by (simp add: key_of_eq_iff)
qed

lemma loc_left_only:
  assumes m: "merge_outer old_df new_df on = Inr m" and l: "loc m left_only on = Inr rem1"
  shows "columns rem1 = on"
    and "rows rem1 = map (project on)
           (filter (\<lambda>ro. key_of on ro \<notin> set (map (key_of on) (rows new_df))) (rows old_df))"
proof -
  note d = merge_outer_InrD[OF m]
  from l have r: "rem1 = \<lparr>schema = map (\<lambda>c. (c, dtype_of (mschema m) c)) on,
                rows = map (project on \<circ> snd) (filter (\<lambda>t. fst t = left_only) (mrows m))\<rparr>"
    by (auto simp: loc_def split: if_splits)
  then show "columns rem1 = on" by (simp add: columns_def comp_def)
  have "rows rem1 = map (project on \<circ> snd) (filter (\<lambda>t. fst t = left_only) (left_rows old_df new_df on))"
    by (simp add: r d(7) tag_right_rows)
  also have "\<dots> = map (project on)
           (filter (\<lambda>ro. key_of on ro \<notin> set (map (key_of on) (rows new_df))) (rows old_df))"
    by (simp only: tag_left_rows) (simp add: comp_def project_key_left[OF d(6,4)])
  finally show "rows rem1 = map (project on)
           (filter (\<lambda>ro. key_of on ro \<notin> set (map (key_of on) (rows new_df))) (rows old_df))" .
qed

lemma loc_right_only:
  assumes m: "merge_outer old_df new_df on = Inr m"
    and l: "loc m right_only (columns old_df) = Inr add1"
    and sub: "set (columns old_df) \<subseteq> set (columns new_df)"
  shows "columns add1 = columns old_df"
    and "rows add1 = map (out_row old_df new_df on)
           (filter (\<lambda>rn. key_of on rn \<notin> set (map (key_of on) (rows old_df))) (rows new_df))"
proof -
  note d = merge_outer_InrD[OF m]
  from l have r: "add1 = \<lparr>schema = map (\<lambda>c. (c, dtype_of (mschema m) c)) (columns old_df),
                rows = map (project (columns old_df) \<circ> snd) (filter (\<lambda>t. fst t = right_only) (mrows m))\<rparr>"
    by (auto simp: loc_def split: if_splits)
  then show "columns add1 = columns old_df" by (simp add: columns_def comp_def)
  have "rows add1 = map (project (columns old_df) \<circ> snd) (right_rows old_df new_df on)"
    by (simp add: r d(7) tag_right_rows tag_right_left_rows)
  also have "\<dots> = map (out_row old_df new_df on)
           (filter (\<lambda>rn. key_of on rn \<notin> set (map (key_of on) (rows old_df))) (rows new_df))"
    by (simp add: right_rows_def comp_def project_all_new[OF d(6) d(3) d(4) sub])
  finally show "rows add1 = map (out_row old_df new_df on)
           (filter (\<lambda>rn. key_of on rn \<notin> set (map (key_of on) (rows old_df))) (rows new_df))" .
qed

subsection \<open>The renamed old columns\<close>

lemma starts_with_Nil: "starts_with s []"
  by (cases s) auto

lemma starts_with_append: "starts_with (p @ s) p"
  by (induction p) (auto simp: starts_with_Nil)

lemma str_in_append: "str_in p (xs @ p)"
proof (induction xs)
  case Nil
  show ?case using starts_with_append[of p "[]"] by (cases p) auto
qed simp

lemma rename_x_suffixed: "rename_x (c @ ''_x'') = c"
  using str_in_append[of "''_x''" c] by (simp add: rename_x_def drop_last2_def)

lemma unique_label:
  assumes "filter (\<lambda>p. fst p = c) (map (\<lambda>l. (g l, h l)) ls) = [p]" "l0 \<in> set ls" "g l0 = c"
  shows "cell (map (\<lambda>l. (g l, k l)) ls) c = k l0 \<and> snd p = h l0"
  using assms
proof (induction ls)
  case Nil
  then show ?case by simp
next
  case (Cons l ls)
  show ?case
  proof (cases "g l = c")
    case True
    with Cons.prems(1) have "filter (\<lambda>p. fst p = c) (map (\<lambda>l. (g l, h l)) ls) = []" "p = (g l, h l)"
      by auto
    then have "\<forall>l' \<in> set ls. g l' \<noteq> c" by (auto simp: filter_empty_conv)
    with Cons.prems(2,3) have "l0 = l" by auto
    with True \<open>p = (g l, h l)\<close> show ?thesis by (simp add: cell_def)
  next
    case False
    with Cons.prems have "filter (\<lambda>p. fst p = c) (map (\<lambda>l. (g l, h l)) ls) = [p]" "l0 \<in> set ls"
      by auto
    from Cons.IH[OF this Cons.prems(3)] False show ?thesis by (simp add: cell_def)
  qed
qed

lemma series_dtype_InrD:
  "series_dtype df c = Inr d \<Longrightarrow> \<exists>p. filter (\<lambda>p. fst p = c) (schema df) = [p] \<and> snd p = d"
  by (auto simp: series_dtype_def split: list.splits)

lemma filter_eq_single: "distinct xs \<Longrightarrow> x0 \<in> set xs \<Longrightarrow> filter (\<lambda>x. x = x0) xs = [x0]"
  by (induction xs) (auto simp: filter_empty_conv)

lemma filter_label_unique:
  assumes "distinct xs" "x0 \<in> set xs" "\<And>x. x \<in> set xs \<Longrightarrow> (g x = c) = (x = x0)"
  shows "filter (\<lambda>p. fst p = c) (map (\<lambda>x. (g x, H x)) xs) = [(c, H x0)]"
proof -
  have "filter (\<lambda>x. g x = c) xs = filter (\<lambda>x. x = x0) xs"
    by (rule filter_cong[OF refl]) (simp add: assms(3))
  then have "filter (\<lambda>x. g x = c) xs = [x0]"
    by (simp add: filter_eq_single[OF assms(1,2)])
  moreover have "g x0 = c" using assms(2,3) by simp
  ultimately show ?thesis by (simp add: filter_map comp_def)
qed

lemma map_eq_map_Inr:
  assumes "map F xs = map Inr ys"
  shows "ys = map (\<lambda>x. projr (F x)) xs" and "\<forall>x \<in> set xs. \<exists>y. F x = Inr y"
proof -
  from assms have len: "length xs = length ys"
    by (metis length_map)
  have nth: "F (xs ! i) = Inr (ys ! i)" if "i < length xs" for i
    using that len nth_map[of i xs F] nth_map[of i ys Inr] assms by simp
  show "ys = map (\<lambda>x. projr (F x)) xs"
    by (rule nth_equalityI) (simp_all add: len nth)
  show "\<forall>x \<in> set xs. \<exists>y. F x = Inr y"
    by (metis in_set_conv_nth nth)
qed

lemma map_nth_fun: "map (\<lambda>i. f (xs ! i)) [0..<length xs] = map f xs"
  by (rule nth_equalityI) simp_all

lemma filter_zip_map: "map snd (filter fst (zip (map P xs) (map g xs))) = map g (filter P xs)"
  by (induction xs) auto

subsection \<open>One column of the comparison\<close>

lemma compare_dfs_InrE:
  assumes "compare_dfs close old_df new_df on = Inr res"
  obtains m rem1 add1 old_sel new_set comp_list comp_index where
    "\<not> columns_check old_df new_df"
    "merge_outer old_df new_df on = Inr m"
    "loc m left_only on = Inr rem1"
    "loc m right_only (columns old_df) = Inr add1"
    "getitem (both_rows m) (on @ filter (str_in ''_x'') (columns (both_rows m))) = Inr old_sel"
    "getitem (both_rows m) (columns old_df) = Inr new_set"
    "sequence (map (comp_col close (rename_columns old_sel) new_set) (val_cols old_df on)) = Inr comp_list"
    "any_axis1 (length (rows new_set)) comp_list = Inr comp_index"
    "res = \<lparr>diff = \<lparr>schema = schema new_set,
                         rows = map snd (filter fst (zip comp_index (rows new_set)))\<rparr>,
            new = add1, remove = rem1\<rparr>"
  using assms unfolding compare_dfs_def Let_def setitem_isnull_id val_cols_def
  by (auto split: if_splits sum.splits)

lemma getitem_InrD:
  "getitem df cs = Inr r \<Longrightarrow>
     r = \<lparr>schema = map (\<lambda>c. (c, dtype_of (schema df) c)) cs, rows = map (project cs) (rows df)\<rparr>"
  by (auto simp: getitem_def split: if_splits)

lemma rename_columns_getitem:
  "rename_columns \<lparr>schema = map (\<lambda>c. (c, h c)) cs, rows = map (project cs) rs\<rparr> =
     \<lparr>schema = map (\<lambda>l. (rename_x l, h l)) cs,
      rows = map (\<lambda>r. map (\<lambda>l. (rename_x l, cell r l)) cs) rs\<rparr>"
  by (simp add: rename_columns_def project_def comp_def)

lemma comp_col_eval:
  assumes m: "merge_outer old_df new_df on = Inr m"
    and sub: "set (columns old_df) \<subseteq> set (columns new_df)"
    and os: "getitem (both_rows m) (on @ filter (str_in ''_x'') (columns (both_rows m))) = Inr old_sel"
    and ns: "getitem (both_rows m) (columns old_df) = Inr new_set"
    and c: "c \<in> set (val_cols old_df on)"
    and u: "filter (\<lambda>p. fst p = c) (schema (rename_columns old_sel)) = [p]"
  shows "comp_col close (rename_columns old_sel) new_set c =
     (if old_dtype old_df new_df on c = Float64 \<and> new_dtype old_df new_df on c = Object
      then Inl TypeError
      else sequence (map (\<lambda>(ro, rn).
              cell_differs close (old_dtype old_df new_df on c) (new_dtype old_df new_df on c)
                (old_cell old_df new_df on ro c) (new_cell old_df new_df on rn c))
            (matched_pairs old_df new_df on)))"
proof -
  note d = merge_outer_InrD[OF m]
  let ?lc = "columns old_df" and ?rc = "columns new_df"
  let ?ps = "matched_pairs old_df new_df on"
  let ?M = "\<lambda>(ro, rn). merged_row old_df new_df on (Some ro) (Some rn)"
  let ?ms = "merged_schema old_df new_df on"
  define oc where "oc = on @ filter (str_in ''_x'') (columns (both_rows m))"
  let ?l0 = "c @ ''_x''"
  from c have c1: "c \<in> set ?lc" "c \<notin> set on" by (auto simp: val_cols_def)
  with sub have c2: "c \<in> set ?rc" by auto
  have br: "rows (both_rows m) = map ?M ?ps" by (rule both_rows_rows[OF m])
  have bs: "schema (both_rows m) = ?ms" by (simp add: both_rows_def d(8))
  have bc: "columns (both_rows m) = merged_labels on ?lc ?rc"
    by (simp add: columns_def bs fst_merged_schema)
  have old_set: "rename_columns old_sel =
      \<lparr>schema = map (\<lambda>l. (rename_x l, dtype_of ?ms l)) oc,
       rows = map (\<lambda>r. map (\<lambda>l. (rename_x l, cell r l)) oc) (map ?M ?ps)\<rparr>"
    unfolding getitem_InrD[OF os[folded oc_def]] bs br by (rule rename_columns_getitem)
  have new_set: "new_set = \<lparr>schema = map (\<lambda>c. (c, dtype_of ?ms c)) ?lc,
       rows = map (project ?lc) (map ?M ?ps)\<rparr>"
    unfolding getitem_InrD[OF ns] bs br ..
  have "suffix_x on ?rc c \<in> set (merged_labels on ?lc ?rc)"
    using c1(1) by (simp add: merged_labels_def)
  then have "?l0 \<in> set (merged_labels on ?lc ?rc)"
    by (simp add: suffix_x_val[OF c1(2) c2])
  then have l0: "?l0 \<in> set oc"
    by (simp add: oc_def bc str_in_append)
  from u have p: "filter (\<lambda>p. fst p = c) (map (\<lambda>l. (rename_x l, dtype_of ?ms l)) oc) = [p]"
    by (simp add: old_set)
  from unique_label[OF p l0 rename_x_suffixed]
  have sp: "snd p = old_dtype old_df new_df on c"
    by (simp add: dtype_merged_old[OF d(6) d(2) c1 c2])
  have sd_old: "series_dtype (rename_columns old_sel) c = Inr (old_dtype old_df new_df on c)"
    by (simp add: series_dtype_def u sp)
  have "filter (\<lambda>p. fst p = c) (map (\<lambda>c. (c, dtype_of ?ms c)) ?lc) = [(c, dtype_of ?ms c)]"
    by (rule filter_label_unique[OF d(2) c1(1)]) auto
  then have sd_new: "series_dtype new_set c = Inr (new_dtype old_df new_df on c)"
    by (simp add: series_dtype_def new_set dtype_merged_new[OF d(6) d(3) c2 c1(2)])
  have ocell: "cell (map (\<lambda>l. (rename_x l, cell r l)) oc) c = cell r ?l0" for r
    using unique_label[OF p l0 rename_x_suffixed, of "cell r"] by simp
  have zp: "zip (rows (rename_columns old_sel)) (rows new_set) =
      map (\<lambda>p. (map (\<lambda>l. (rename_x l, cell (?M p) l)) oc, project ?lc (?M p))) ?ps"
    by (simp add: old_set new_set zip_map_map zip_same_conv_map comp_def)
  have cells: "cell (merged_row old_df new_df on (Some ro) (Some rn)) ?l0 = old_cell old_df new_df on ro c"
    "cell (project ?lc (merged_row old_df new_df on (Some ro) (Some rn))) c = new_cell old_df new_df on rn c"
    for ro rn
    by (simp_all add: cell_merged_old[OF d(6) d(2) c1 c2] cell_project[OF c1(1)]
          cell_merged_new[OF d(6) d(3) c2 c1(2)])
  show ?thesis
    unfolding comp_col_def sd_old sd_new zp
    by (simp add: comp_def ocell cells case_prod_unfold)
qed

lemma comp_col_char:
  assumes m: "merge_outer old_df new_df on = Inr m"
    and sub: "set (columns old_df) \<subseteq> set (columns new_df)"
    and os: "getitem (both_rows m) (on @ filter (str_in ''_x'') (columns (both_rows m))) = Inr old_sel"
    and ns: "getitem (both_rows m) (columns old_df) = Inr new_set"
    and c: "c \<in> set (val_cols old_df on)"
    and cc: "comp_col close (rename_columns old_sel) new_set c = Inr col"
  shows "col = map (\<lambda>(ro, rn). col_changed close old_df new_df on ro rn c) (matched_pairs old_df new_df on)"
proof -
  let ?ps = "matched_pairs old_df new_df on"
  let ?F = "\<lambda>q. cell_differs close (old_dtype old_df new_df on c) (new_dtype old_df new_df on c)
                (old_cell old_df new_df on (fst q) c) (new_cell old_df new_df on (snd q) c)"
  from cc obtain dt where "series_dtype (rename_columns old_sel) c = Inr dt"
    by (auto simp: comp_col_def split: sum.splits)
  from series_dtype_InrD[OF this] obtain p where
    u: "filter (\<lambda>p. fst p = c) (schema (rename_columns old_sel)) = [p]" by blast
  from cc have "sequence (map ?F ?ps) = Inr col"
    unfolding comp_col_eval[OF m sub os ns c u] by (simp add: case_prod_unfold split: if_splits)
  then have "map ?F ?ps = map Inr col" by (simp add: sequence_Inr_iff)
  from map_eq_map_Inr[OF this]
  have col: "col = map (\<lambda>x. projr (?F x)) ?ps" and allr: "\<forall>x \<in> set ?ps. \<exists>y. ?F x = Inr y"
    by blast+
  have "projr (?F q) = (case q of (ro, rn) \<Rightarrow> col_changed close old_df new_df on ro rn c)"
    if "q \<in> set ?ps" for q
  proof -
    from allr that obtain y where y: "?F q = Inr y" by blast
    then have "projr (?F q) = (?F q = Inr True)" by simp
    then show ?thesis
      unfolding col_changed_def by (simp add: case_prod_unfold)
  qed
  then show ?thesis unfolding col by (intro map_cong refl)
qed

subsection \<open>The three outputs\<close>

lemma diff_rows_eval:
  assumes m: "merge_outer old_df new_df on = Inr m"
    and sub: "set (columns old_df) \<subseteq> set (columns new_df)"
    and ns: "getitem (both_rows m) (columns old_df) = Inr new_set"
    and cl: "comp_list = map (\<lambda>c. map (\<lambda>(ro, rn). col_changed close old_df new_df on ro rn c)
                (matched_pairs old_df new_df on)) (val_cols old_df on)"
    and ax: "any_axis1 (length (rows new_set)) comp_list = Inr comp_index"
  shows "map snd (filter fst (zip comp_index (rows new_set))) =
           map (out_row old_df new_df on \<circ> snd)
             (filter (row_changed close old_df new_df on) (matched_pairs old_df new_df on))"
proof -
  note d = merge_outer_InrD[OF m]
  let ?lc = "columns old_df"
  let ?ps = "matched_pairs old_df new_df on"
  let ?M = "\<lambda>(ro, rn). merged_row old_df new_df on (Some ro) (Some rn)"
  have nr: "rows new_set = map (\<lambda>p. project ?lc (?M p)) ?ps"
    unfolding getitem_InrD[OF ns] both_rows_rows[OF m] by (simp add: comp_def)
  from ax have ci: "comp_index = map (\<lambda>i. \<exists>col \<in> set comp_list. col ! i) [0..<length ?ps]"
    by (auto simp: any_axis1_def nr split: if_splits)
  have "comp_index = map (\<lambda>i. row_changed close old_df new_df on (?ps ! i)) [0..<length ?ps]"
    unfolding ci
  proof (intro map_cong refl)
    fix i assume "i \<in> set [0..<length ?ps]"
    then have i: "i < length ?ps" by simp
    show "(\<exists>col \<in> set comp_list. col ! i) = row_changed close old_df new_df on (?ps ! i)"
      using i by (auto simp: cl row_changed_def case_prod_unfold)
  qed
  then have ci': "comp_index = map (row_changed close old_df new_df on) ?ps"
    by (simp only: map_nth_fun)
  have "map snd (filter fst (zip comp_index (rows new_set))) =
          map (\<lambda>p. project ?lc (?M p)) (filter (row_changed close old_df new_df on) ?ps)"
    unfolding ci' nr by (rule filter_zip_map)
  also have "\<dots> = map (out_row old_df new_df on \<circ> snd) (filter (row_changed close old_df new_df on) ?ps)"
  proof (intro map_cong refl)
    fix p assume "p \<in> set (filter (row_changed close old_df new_df on) ?ps)"
    then have pin: "p \<in> set ?ps" by simp
    obtain ro rn where pp: "p = (ro, rn)" by (cases p)
    from pin have k: "key_of on ro = key_of on rn"
      unfolding pp by (simp add: matched_pairs_iff)
    show "project ?lc (?M p) = (out_row old_df new_df on \<circ> snd) p"
      unfolding pp using k by (simp add: project_all_new[OF d(6) d(3) d(4) sub])
  qed
  finally show ?thesis .
qed

lemma compare_dfs_char:
  assumes ok: "compare_dfs close old_df new_df on = Inr res"
    and sub: "set (columns old_df) \<subseteq> set (columns new_df)"
  shows "columns (diff res) = columns old_df"
    and "columns (new res) = columns old_df"
    and "columns (remove res) = on"
    and "rows (remove res) = map (project on)
           (filter (\<lambda>ro. key_of on ro \<notin> set (map (key_of on) (rows new_df))) (rows old_df))"
    and "rows (new res) = map (out_row old_df new_df on)
           (filter (\<lambda>rn. key_of on rn \<notin> set (map (key_of on) (rows old_df))) (rows new_df))"
    and "rows (diff res) = map (out_row old_df new_df on \<circ> snd)
           (filter (row_changed close old_df new_df on) (matched_pairs old_df new_df on))"
    and "val_cols old_df on \<noteq> []"
proof -
  from ok obtain m rem1 add1 old_sel new_set comp_list comp_index where
    m: "merge_outer old_df new_df on = Inr m"
    and rem1: "loc m left_only on = Inr rem1"
    and add1: "loc m right_only (columns old_df) = Inr add1"
    and os: "getitem (both_rows m) (on @ filter (str_in ''_x'') (columns (both_rows m))) = Inr old_sel"
    and ns: "getitem (both_rows m) (columns old_df) = Inr new_set"
    and sq: "sequence (map (comp_col close (rename_columns old_sel) new_set) (val_cols old_df on)) = Inr comp_list"
    and ax: "any_axis1 (length (rows new_set)) comp_list = Inr comp_index"
    and res: "res = \<lparr>diff = \<lparr>schema = schema new_set,
                         rows = map snd (filter fst (zip comp_index (rows new_set)))\<rparr>,
            new = add1, remove = rem1\<rparr>"
    by (rule compare_dfs_InrE)
  let ?ps = "matched_pairs old_df new_df on"
  let ?D = "\<lambda>c (ro, rn). col_changed close old_df new_df on ro rn c"
  show "columns (diff res) = columns old_df"
    by (simp add: res getitem_InrD[OF ns] columns_def comp_def)
  show "columns (new res) = columns old_df"
    by (simp add: res loc_right_only(1)[OF m add1 sub])
  show "columns (remove res) = on"
    by (simp add: res loc_left_only(1)[OF m rem1])
  show "rows (remove res) = map (project on)
           (filter (\<lambda>ro. key_of on ro \<notin> set (map (key_of on) (rows new_df))) (rows old_df))"
    by (simp only: res comparison.simps loc_left_only(2)[OF m rem1])
  show "rows (new res) = map (out_row old_df new_df on)
           (filter (\<lambda>rn. key_of on rn \<notin> set (map (key_of on) (rows old_df))) (rows new_df))"
    by (simp only: res comparison.simps loc_right_only(2)[OF m add1 sub])
  from sq have sq': "map (comp_col close (rename_columns old_sel) new_set) (val_cols old_df on) = map Inr comp_list"
    by (simp add: sequence_Inr_iff)
  from map_eq_map_Inr[OF sq']
  have cl: "comp_list = map (\<lambda>c. projr (comp_col close (rename_columns old_sel) new_set c)) (val_cols old_df on)"
    and allr: "\<forall>c \<in> set (val_cols old_df on). \<exists>col. comp_col close (rename_columns old_sel) new_set c = Inr col"
    by blast+
  have pc: "projr (comp_col close (rename_columns old_sel) new_set c) = map (?D c) ?ps"
    if "c \<in> set (val_cols old_df on)" for c
  proof -
    from allr that obtain col where col: "comp_col close (rename_columns old_sel) new_set c = Inr col"
      by blast
    from comp_col_char[OF m sub os ns that col] col show ?thesis by simp
  qed
  from pc have cl': "comp_list = map (\<lambda>c. map (?D c) ?ps) (val_cols old_df on)"
    unfolding cl by (intro map_cong refl)
  from ax have "comp_list \<noteq> []" by (auto simp: any_axis1_def split: if_splits)
  then show "val_cols old_df on \<noteq> []" by (simp add: cl')
  show "rows (diff res) = map (out_row old_df new_df on \<circ> snd)
           (filter (row_changed close old_df new_df on) ?ps)"
    using diff_rows_eval[OF m sub ns cl' ax] by (simp add: res)
qed

subsection \<open>Membership in \<open>diff\<close> by key\<close>

lemma compare_dfs_keys:
  assumes "compare_dfs close old_df new_df on = Inr res"
  shows "set on \<subseteq> set (columns old_df)" "set on \<subseteq> set (columns new_df)"
    "distinct (columns old_df)" "distinct (columns new_df)" "on \<noteq> []"
proof -
  from assms obtain m where m: "merge_outer old_df new_df on = Inr m"
    by (rule compare_dfs_InrE)
  from merge_outer_InrD[OF m]
  show "set on \<subseteq> set (columns old_df)" "set on \<subseteq> set (columns new_df)"
    "distinct (columns old_df)" "distinct (columns new_df)" "on \<noteq> []"
    by blast+
qed

lemma unique_keys_eq:
  "unique_keys df on \<Longrightarrow> r \<in> set (rows df) \<Longrightarrow> r' \<in> set (rows df) \<Longrightarrow>
   key_of on r = key_of on r' \<Longrightarrow> r = r'"
  by (auto simp: unique_keys_def distinct_map dest: inj_onD)

lemma key_in_diff_iff:
  assumes ok: "compare_dfs close old_df new_df on = Inr res"
    and sub: "set (columns old_df) \<subseteq> set (columns new_df)"
    and uo: "unique_keys old_df on" and un: "unique_keys new_df on"
    and ro: "ro \<in> set (rows old_df)" and rn: "rn \<in> set (rows new_df)"
    and k: "key_of on ro = key_of on rn"
  shows "key_of on rn \<in> set (map (key_of on) (rows (diff res))) \<longleftrightarrow>
           row_changed close old_df new_df on (ro, rn)"
proof
  let ?ps = "matched_pairs old_df new_df on"
  note rd = compare_dfs_char(6)[OF ok sub]
  note ko = key_of_out_row[OF compare_dfs_keys(1)[OF ok]]
  have pin: "(ro, rn) \<in> set ?ps" using ro rn k by (simp add: matched_pairs_iff)
  {
    assume "row_changed close old_df new_df on (ro, rn)"
    with pin have "(ro, rn) \<in> set (filter (row_changed close old_df new_df on) ?ps)" by simp
    then have "(out_row old_df new_df on \<circ> snd) (ro, rn) \<in> set (rows (diff res))"
      unfolding rd set_map by (rule imageI)
    then have "key_of on (out_row old_df new_df on rn) \<in> set (map (key_of on) (rows (diff res)))"
      by simp
    then show "key_of on rn \<in> set (map (key_of on) (rows (diff res)))"
      by (simp only: ko)
  }
  {
    assume "key_of on rn \<in> set (map (key_of on) (rows (diff res)))"
    then obtain p where p: "p \<in> set ?ps" "row_changed close old_df new_df on p"
      and e: "key_of on (out_row old_df new_df on (snd p)) = key_of on rn"
      unfolding rd by auto
    obtain ro' rn' where pp: "p = (ro', rn')" by (cases p)
    from p(1) have m: "ro' \<in> set (rows old_df)" "rn' \<in> set (rows new_df)"
      "key_of on rn' = key_of on ro'"
      unfolding pp by (simp_all add: matched_pairs_iff)
    from e have kk: "key_of on rn' = key_of on rn"
      by (simp add: pp ko)
    from unique_keys_eq[OF un m(2) rn kk] have "rn' = rn" .
    moreover from m(3) kk k have "key_of on ro' = key_of on ro" by simp
    from unique_keys_eq[OF uo m(1) ro this] have "ro' = ro" .
    ultimately show "row_changed close old_df new_df on (ro, rn)" using p(2) pp by simp
  }
qed

section \<open>compare_dfs returns on valid inputs\<close>

lemma clean_not_suffixed: "\<not> str_in ''_x'' c \<Longrightarrow> c \<noteq> c' @ ''_x''"
  using str_in_append[of "''_x''" c'] by auto

lemma rename_x_clean: "\<not> str_in ''_x'' c \<Longrightarrow> rename_x c = c"
  by (simp add: rename_x_def)

lemma merged_labels_distinct:
  assumes d: "distinct lc" and cl: "\<forall>c \<in> set lc. \<not> str_in ''_x'' c"
  shows "distinct (merged_labels on lc lc)"
proof -
  have inj: "inj_on (suffix_x on lc) (set lc)"
  proof (rule inj_onI)
    fix a b assume a: "a \<in> set lc" and b: "b \<in> set lc" and e: "suffix_x on lc a = suffix_x on lc b"
    from cl a b have "a \<noteq> b @ ''_x''" "b \<noteq> a @ ''_x''"
      by (auto dest: clean_not_suffixed)
    with e a b show "a = b" by (auto simp: suffix_x_def split: if_splits)
  qed
  have dis: "suffix_x on lc a \<noteq> b" if "a \<in> set lc" "b \<in> set lc" "b \<notin> set on" for a b
  proof
    assume e: "suffix_x on lc a = b"
    from cl that have "b \<noteq> a @ ''_x''" by (auto dest: clean_not_suffixed)
    with e that show False by (auto simp: suffix_x_def split: if_splits)
  qed
  have 1: "distinct (map (suffix_x on lc) lc)"
    using d inj by (simp add: distinct_map)
  have 2: "distinct (filter (\<lambda>c. c \<notin> set on) lc)" using d by simp
  have 3: "set (map (suffix_x on lc) lc) \<inter> set (filter (\<lambda>c. c \<notin> set on) lc) = {}"
    using dis by auto
  show ?thesis
    unfolding merged_labels_def using 1 2 3 by (simp only: distinct_append simp_thms)
qed

lemma suffixed_labels:
  assumes cl: "\<forall>c \<in> set lc. \<not> str_in ''_x'' c"
  shows "filter (str_in ''_x'') (merged_labels on lc lc) =
           map (\<lambda>c. c @ ''_x'') (filter (\<lambda>c. c \<notin> set on) lc)"
proof -
  have 1: "filter (str_in ''_x'') (filter (\<lambda>c. c \<notin> set on) lc) = []"
    using cl by (auto simp: filter_empty_conv)
  have 2: "str_in ''_x'' (suffix_x on lc c) \<longleftrightarrow> c \<notin> set on" if "c \<in> set lc" for c
    using that cl by (auto simp: suffix_x_def str_in_append)
  have "filter (str_in ''_x'') (map (suffix_x on lc) lc) =
          map (suffix_x on lc) (filter (\<lambda>c. str_in ''_x'' (suffix_x on lc c)) lc)"
    by (simp add: filter_map comp_def)
  also have "filter (\<lambda>c. str_in ''_x'' (suffix_x on lc c)) lc = filter (\<lambda>c. c \<notin> set on) lc"
    by (rule filter_cong[OF refl]) (simp add: 2)
  also have "map (suffix_x on lc) (filter (\<lambda>c. c \<notin> set on) lc) =
      map (\<lambda>c. c @ ''_x'') (filter (\<lambda>c. c \<notin> set on) lc)"
    by (rule map_cong[OF refl]) (simp add: suffix_x_def)
  finally have "filter (str_in ''_x'') (map (suffix_x on lc) lc) =
      map (\<lambda>c. c @ ''_x'') (filter (\<lambda>c. c \<notin> set on) lc)" .
  then show ?thesis
    unfolding merged_labels_def filter_append 1 by simp
qed

lemma sequence_total:
  "(\<forall>x \<in> set xs. \<exists>y. F x = Inr y) \<Longrightarrow> \<exists>ys. sequence (map F xs) = Inr ys \<and> length ys = length xs"
  by (induction xs) auto

lemma not_str_astype_float64: "(\<forall>s. v \<noteq> Str s) \<Longrightarrow> astype_float64 v \<noteq> Str s"
  by (cases v) (auto simp: astype_float64_def)

lemma as_float_total: "(\<forall>s. v \<noteq> Str s) \<Longrightarrow> \<exists>x. as_float v = Inr x"
  by (cases v) auto

lemma cell_differs_total:
  assumes "d = Float64 \<longrightarrow> (\<forall>s. a \<noteq> Str s) \<and> (\<forall>s. b \<noteq> Str s)"
  shows "\<exists>t. cell_differs close d d' a b = Inr t"
proof (cases "d = Float64")
  case True
  with assms have a: "\<forall>s. a \<noteq> Str s" and b: "\<forall>s. promote d' d b \<noteq> Str s"
    by (auto simp: promote_def not_str_astype_float64)
  from as_float_total[OF a] as_float_total[OF b] obtain x y where
    "as_float a = Inr x" "as_float (promote d' d b) = Inr y" by blast
  with True show ?thesis by (simp add: cell_differs_def isclose_def)
next
  case False
  then show ?thesis by (simp add: cell_differs_def)
qed

lemma upcast_Float64: "upcast d = Float64 \<Longrightarrow> d = Float64 \<or> d = Int64"
  by (cases d) auto

lemma merged_dtype_Float64: "merged_dtype n d = Float64 \<Longrightarrow> d = Float64 \<or> d = Int64"
  by (auto simp: merged_dtype_def dest: upcast_Float64 split: if_splits)

lemma merged_dtype_not_Object:
  "d = Float64 \<or> d = Int64 \<Longrightarrow> merged_dtype n d \<noteq> Object"
  by (auto simp: merged_dtype_def)

lemma conforms_numeric_not_str:
  "d = Float64 \<or> d = Int64 \<Longrightarrow> conforms d v \<Longrightarrow> merged_cell n d v \<noteq> Str s"
  by (cases v) (auto simp: merged_cell_def astype_def astype_float64_def)

lemma valid_inputsD:
  assumes "valid_inputs old_df new_df on"
  shows "schema old_df = schema new_df" "columns old_df = columns new_df"
    "distinct (columns old_df)" "distinct (columns new_df)"
    "\<forall>c \<in> set (columns old_df). \<not> str_in ''_x'' c" "''_merge'' \<notin> set (columns old_df)"
    "well_typed old_df" "well_typed new_df" "on \<noteq> []" "distinct on"
    "set on \<subseteq> set (columns old_df)" "val_cols old_df on \<noteq> []"
    "unique_keys old_df on" "unique_keys new_df on"
  using assms by (auto simp: valid_inputs_def wf_df_def clean_labels_def columns_def)

lemma valid_merge:
  assumes v: "valid_inputs old_df new_df on"
  shows "merge_outer old_df new_df on =
           Inr \<lparr>mschema = merged_schema old_df new_df on,
                mrows = left_rows old_df new_df on @ right_rows old_df new_df on\<rparr>"
proof -
  note d = valid_inputsD[OF v]
  have "distinct (merged_labels on (columns old_df) (columns new_df))"
    using merged_labels_distinct[OF d(3,5)] by (simp add: d(2)[symmetric])
  then show ?thesis
    using d by (simp add: merge_outer_def Let_def)
qed

lemma valid_labels:
  assumes v: "valid_inputs old_df new_df on"
  shows "set on \<subseteq> set (merged_labels on (columns old_df) (columns new_df))"
    and "set (columns old_df) \<subseteq> set (merged_labels on (columns old_df) (columns new_df))"
    and "filter (str_in ''_x'') (merged_labels on (columns old_df) (columns new_df)) =
           map (\<lambda>c. c @ ''_x'') (val_cols old_df on)"
proof -
  note d = valid_inputsD[OF v]
  have k: "c \<in> set (merged_labels on (columns old_df) (columns new_df))"
    if "c \<in> set (columns old_df)" for c
  proof (cases "c \<in> set on")
    case True
    with that have "suffix_x on (columns new_df) c \<in> set (map (suffix_x on (columns new_df)) (columns old_df))"
      by simp
    with True show ?thesis by (simp add: merged_labels_def suffix_x_key)
  next
    case False
    with that show ?thesis by (simp add: merged_labels_def d(2)[symmetric])
  qed
  from k show "set (columns old_df) \<subseteq> set (merged_labels on (columns old_df) (columns new_df))"
    by blast
  with d(11) show "set on \<subseteq> set (merged_labels on (columns old_df) (columns new_df))"
    by blast
  show "filter (str_in ''_x'') (merged_labels on (columns old_df) (columns new_df)) =
           map (\<lambda>c. c @ ''_x'') (val_cols old_df on)"
    using suffixed_labels[OF d(5), of on] by (simp add: d(2)[symmetric] val_cols_def)
qed

lemma valid_unique_series:
  assumes v: "valid_inputs old_df new_df on" and c: "c \<in> set (val_cols old_df on)"
  shows "filter (\<lambda>p. fst p = c)
           (map (\<lambda>l. (rename_x l, H l)) (on @ map (\<lambda>c. c @ ''_x'') (val_cols old_df on))) =
         [(c, H (c @ ''_x''))]"
proof -
  note d = valid_inputsD[OF v]
  from c have c1: "c \<in> set (columns old_df)" "c \<notin> set on" by (auto simp: val_cols_def)
  have "rename_x l \<noteq> c" if "l \<in> set on" for l
  proof -
    from that d(11) d(5) have "rename_x l = l" by (auto intro: rename_x_clean)
    with that c1(2) show ?thesis by auto
  qed
  then have 1: "filter (\<lambda>p. fst p = c) (map (\<lambda>l. (rename_x l, H l)) on) = []"
    by (auto simp: filter_empty_conv)
  have dv: "distinct (val_cols old_df on)" using d(3) by (simp add: val_cols_def)
  have "filter (\<lambda>p. fst p = c) (map (\<lambda>x. (x, H (x @ ''_x''))) (val_cols old_df on)) = [(c, H (c @ ''_x''))]"
    by (rule filter_label_unique[OF dv c]) auto
  then have 2: "filter (\<lambda>p. fst p = c)
      (map (\<lambda>l. (rename_x l, H l)) (map (\<lambda>c. c @ ''_x'') (val_cols old_df on))) = [(c, H (c @ ''_x''))]"
    by (simp add: comp_def rename_x_suffixed)
  show ?thesis
    unfolding map_append filter_append 1 2 by simp
qed

lemma valid_dtypes:
  assumes v: "valid_inputs old_df new_df on" and c: "c \<in> set (val_cols old_df on)"
  shows "\<not> (old_dtype old_df new_df on c = Float64 \<and> new_dtype old_df new_df on c = Object)"
proof -
  note d = valid_inputsD[OF v]
  have "dtype_of (schema old_df) c = Float64 \<or> dtype_of (schema old_df) c = Int64"
    if "old_dtype old_df new_df on c = Float64"
    using that by (auto simp: old_dtype_def dest: merged_dtype_Float64)
  then show ?thesis
    using merged_dtype_not_Object by (auto simp: new_dtype_def d(1)[symmetric])
qed

lemma valid_cells_total:
  assumes v: "valid_inputs old_df new_df on" and c: "c \<in> set (val_cols old_df on)"
    and ro: "ro \<in> set (rows old_df)" and rn: "rn \<in> set (rows new_df)"
  shows "\<exists>t. cell_differs close (old_dtype old_df new_df on c) (new_dtype old_df new_df on c)
                (old_cell old_df new_df on ro c) (new_cell old_df new_df on rn c) = Inr t"
proof -
  note d = valid_inputsD[OF v]
  from c have c1: "c \<in> set (columns old_df)" by (auto simp: val_cols_def)
  let ?d0 = "dtype_of (schema old_df) c"
  have co: "conforms ?d0 (cell ro c)" using d(7) ro c1 by (auto simp: well_typed_def)
  have cn: "conforms ?d0 (cell rn c)" using d(8) rn c1 by (auto simp: well_typed_def d(1) d(2))
  have num: "?d0 = Float64 \<or> ?d0 = Int64" if "old_dtype old_df new_df on c = Float64"
    using that by (auto simp: old_dtype_def dest: merged_dtype_Float64)
  show ?thesis
  proof (rule cell_differs_total, rule impI)
    assume "old_dtype old_df new_df on c = Float64"
    from num[OF this] have n: "?d0 = Float64 \<or> ?d0 = Int64" .
    show "(\<forall>s. old_cell old_df new_df on ro c \<noteq> Str s) \<and> (\<forall>s. new_cell old_df new_df on rn c \<noteq> Str s)"
      using conforms_numeric_not_str[OF n co] conforms_numeric_not_str[OF n cn]
      by (simp add: old_cell_def new_cell_def d(1)[symmetric])
  qed
qed

lemma compare_dfs_returns:
  assumes v: "valid_inputs old_df new_df on"
  shows "\<exists>res. compare_dfs close old_df new_df on = Inr res"
proof -
  note d = valid_inputsD[OF v]
  let ?lc = "columns old_df" and ?rc = "columns new_df"
  let ?ps = "matched_pairs old_df new_df on"
  define m where "m = \<lparr>mschema = merged_schema old_df new_df on,
                mrows = left_rows old_df new_df on @ right_rows old_df new_df on\<rparr>"
  have m: "merge_outer old_df new_df on = Inr m"
    unfolding m_def by (rule valid_merge[OF v])
  have sub: "set ?lc \<subseteq> set ?rc" by (simp add: d(2))
  have ml: "map fst (mschema m) = merged_labels on ?lc ?rc"
    by (simp add: m_def fst_merged_schema)
  have bc: "columns (both_rows m) = merged_labels on ?lc ?rc"
    by (simp add: columns_def both_rows_def ml)
  note vl = valid_labels[OF v]
  from d(12) obtain c0 where "c0 \<in> set (val_cols old_df on)" by (cases "val_cols old_df on") auto
  then have "c0 \<in> set ?lc" by (simp add: val_cols_def)
  then have cc: "\<not> columns_check old_df new_df"
    by (auto simp: columns_check_def d(2)[symmetric])
  obtain rem1 where rem1: "loc m left_only on = Inr rem1"
    using vl(1) by (simp add: loc_def ml)
  obtain add1 where add1: "loc m right_only ?lc = Inr add1"
    using vl(2) by (simp add: loc_def ml)
  have oc: "on @ filter (str_in ''_x'') (columns (both_rows m)) =
              on @ map (\<lambda>c. c @ ''_x'') (val_cols old_df on)"
    by (simp add: bc vl(3))
  have "set (on @ filter (str_in ''_x'') (columns (both_rows m))) \<subseteq> set (columns (both_rows m))"
    using vl(1) by (auto simp: bc)
  then obtain old_sel where os: "getitem (both_rows m) (on @ filter (str_in ''_x'') (columns (both_rows m))) = Inr old_sel"
    by (simp add: getitem_def)
  obtain new_set where ns: "getitem (both_rows m) ?lc = Inr new_set"
    using vl(2) by (simp add: getitem_def bc)
  have "\<exists>col. comp_col close (rename_columns old_sel) new_set c = Inr col"
    if c: "c \<in> set (val_cols old_df on)" for c
  proof -
    have "schema (rename_columns old_sel) =
        map (\<lambda>l. (rename_x l, dtype_of (schema (both_rows m)) l))
          (on @ map (\<lambda>c. c @ ''_x'') (val_cols old_df on))"
      unfolding getitem_InrD[OF os] oc by (simp add: rename_columns_def comp_def)
    then have u: "filter (\<lambda>p. fst p = c) (schema (rename_columns old_sel)) =
        [(c, dtype_of (schema (both_rows m)) (c @ ''_x''))]"
      by (simp only: valid_unique_series[OF v c])
    have "\<forall>q \<in> set ?ps. \<exists>t. (case q of (ro, rn) \<Rightarrow>
              cell_differs close (old_dtype old_df new_df on c) (new_dtype old_df new_df on c)
                (old_cell old_df new_df on ro c) (new_cell old_df new_df on rn c)) = Inr t"
      using valid_cells_total[OF v c] by (auto simp: matched_pairs_iff)
    from sequence_total[OF this] valid_dtypes[OF v c]
    show ?thesis
      unfolding comp_col_eval[OF m sub os ns c u] by auto
  qed
  then have "\<forall>c \<in> set (val_cols old_df on). \<exists>col. comp_col close (rename_columns old_sel) new_set c = Inr col"
    by blast
  from sequence_total[OF this] obtain comp_list where
    sq: "sequence (map (comp_col close (rename_columns old_sel) new_set) (val_cols old_df on)) = Inr comp_list"
    and len: "length comp_list = length (val_cols old_df on)"
    by blast
  from len d(12) have "comp_list \<noteq> []" by auto
  then obtain comp_index where ax: "any_axis1 (length (rows new_set)) comp_list = Inr comp_index"
    by (simp add: any_axis1_def)
  show ?thesis
    unfolding compare_dfs_def Let_def setitem_isnull_id
    using cc m rem1 add1 os ns sq ax by (simp add: val_cols_def)
qed

subsection \<open>The comparison of one pair of cells\<close>



lemma same_cell_unchanged:
  assumes "conforms d v"
  shows "cell_differs close (merged_dtype n d) (merged_dtype n' d) (merged_cell n d v) (merged_cell n' d v)
           = Inr False"
proof (cases d)
  case Float64
  with assms show ?thesis
    by (cases v) (simp_all add: cell_differs_def isclose_def notnull_def promote_def
          merged_dtype_def merged_cell_def astype_def)
next
  case Float32
  with assms show ?thesis
    by (cases v) (simp_all add: cell_differs_def isclose_def notnull_def promote_def
          merged_dtype_def merged_cell_def astype_def)
next
  case Int64
  with assms obtain x where "v = Num x" by (cases v) auto
  with Int64 show ?thesis
    by (cases n; cases n') (simp_all add: cell_differs_def isclose_def notnull_def promote_def
          merged_dtype_def merged_cell_def astype_def astype_float64_def)
next
  case Boolean
  with assms obtain b where "v = Bool b" by (cases v) auto
  with Boolean show ?thesis
    by (cases n; cases n') (simp_all add: cell_differs_def isclose_def notnull_def promote_def
          merged_dtype_def merged_cell_def astype_def)
next
  case Object
  with assms show ?thesis
    by (cases v) (simp_all add: cell_differs_def isclose_def notnull_def promote_def
          merged_dtype_def merged_cell_def astype_def)
qed

lemma same_cell_col_unchanged:
  assumes v: "valid_inputs old_df new_df on" and c: "c \<in> set (val_cols old_df on)"
    and ro: "ro \<in> set (rows old_df)" and e: "cell ro c = cell rn c"
  shows "\<not> col_changed close old_df new_df on ro rn c"
proof -
  note d = valid_inputsD[OF v]
  from c have "c \<in> set (columns old_df)" by (simp add: val_cols_def)
  with d(7) ro have "conforms (dtype_of (schema old_df) c) (cell ro c)"
    by (auto simp: well_typed_def)
  from same_cell_unchanged[OF this] show ?thesis
    by (simp add: col_changed_def old_dtype_def new_dtype_def old_cell_def new_cell_def
          d(1)[symmetric] e[symmetric])
qed



section \<open>Evaluation of the examples\<close>

lemmas eval_defs =
  compare_dfs_def columns_def merge_outer_def Let_def merged_labels_def merged_schema_def
  merged_dtype_def merged_cell_def receives_nulls_def astype_def astype_float64_def promote_def
  to_float64_def excess_bits_def
  suffix_x_def left_rows_def right_rows_def loc_def key_of_def cell_def merged_row_def
  left_part_def right_part_def both_rows_def getitem_def project_def rename_columns_def
  any_axis1_def setitem_isnull_def dtype_of_def rename_x_def drop_last2_def comp_col_def
  series_dtype_def cell_differs_def isclose_def notnull_def

lemmas ex_defs = ex_old_def ex_new_def ex_schema_def ex_row_def ex_result_def ex_wide_def
  key_only_def ex_f32_def ex_empty_col_def ex_text_col_def ex_int_def

lemma ex_columns_check: "\<not> columns_check ex_old ex_new" "\<not> columns_check ex_old ex_wide"
  "\<not> columns_check (key_only ks) (key_only ks')" "\<not> columns_check (ex_f32 v) (ex_f32 w)"
  "\<not> columns_check ex_empty_col ex_text_col" "\<not> columns_check (ex_int k n) (ex_int k' n')"
  by (auto simp: columns_check_def columns_def ex_defs)

lemma ex_compare: "compare_dfs exact_close ex_old ex_new [''id''] = Inr ex_result"
  using ex_columns_check(1)
  by (simp add: eval_defs ex_defs exact_close_def tolerance_def rtol_def atol_def)

section \<open>The column check of compare_dfs\<close>

text \<open>
  C1. The claim: whenever the column sets of \<open>old_df\<close> and \<open>new_df\<close> differ,
  \<open>compare_dfs\<close> fails with the error for mismatched schemas and returns no result. The
  code at lines 33 and 34 raises \<open>ValueError\<close> only when the two frames have no label in
  common. Here \<open>ex_wide\<close> has the column \<open>extra\<close> that \<open>ex_old\<close> lacks, the column
  sets differ, and \<open>compare_dfs\<close> returns a comparison.
\<close>

theorem compare_dfs_accepts_different_columns:
  "set (columns ex_old) \<noteq> set (columns ex_wide) \<and>
   compare_dfs close ex_old ex_wide [''id''] =
     Inr \<lparr>diff = \<lparr>schema = ex_schema, rows = []\<rparr>,
          new = \<lparr>schema = ex_schema, rows = []\<rparr>,
          remove = \<lparr>schema = [(''id'', Int64)],
                    rows = [[(''id'', Num 2)], [(''id'', Num 3)], [(''id'', Num 4)]]\<rparr>\<rparr>"
proof
  have "''extra'' \<in> set (columns ex_wide)" "''extra'' \<notin> set (columns ex_old)"
    by (simp_all add: columns_def ex_defs)
  then show "set (columns ex_old) \<noteq> set (columns ex_wide)"
    by blast
  show "compare_dfs close ex_old ex_wide [''id''] =
     Inr \<lparr>diff = \<lparr>schema = ex_schema, rows = []\<rparr>,
          new = \<lparr>schema = ex_schema, rows = []\<rparr>,
          remove = \<lparr>schema = [(''id'', Int64)],
                    rows = [[(''id'', Num 2)], [(''id'', Num 3)], [(''id'', Num 4)]]\<rparr>\<rparr>"
    using ex_columns_check(2) by (simp add: eval_defs ex_defs)
qed

text \<open>What the check does test: it raises exactly when no label is shared.\<close>

lemma columns_check_iff:
  "columns_check old_df new_df \<longleftrightarrow> set (columns old_df) \<inter> set (columns new_df) = {}"
  by (auto simp: columns_check_def)

lemma compare_dfs_no_common_column:
  "set (columns old_df) \<inter> set (columns new_df) = {} \<Longrightarrow>
   compare_dfs close old_df new_df on = Inl ValueError"
  by (simp add: compare_dfs_def columns_check_iff)

section \<open>Tables without value columns\<close>

text \<open>
  C2. The claim: for every relation with unique keys, comparing it with itself returns
  three empty relations. For a table that has only its key column, \<open>val_cols\<close> is empty,
  \<open>comp_list\<close> stays empty and \<open>pd.concat\<close> at line 62 raises \<open>ValueError\<close>: nothing
  is returned.
\<close>

theorem compare_dfs_key_only_same:
  "compare_dfs close (key_only [1]) (key_only [1]) [''id''] = Inl ValueError"
  using ex_columns_check(3) by (simp add: eval_defs ex_defs)

text \<open>
  C3. The claim: for inputs with disjoint key sets, \<open>new\<close> is the new relation, \<open>remove\<close>
  the keys of the old one and \<open>diff\<close> is empty. For two tables that have only their key
  column, with the disjoint keys 1 and 2, the same \<open>pd.concat\<close> raises \<open>ValueError\<close>.
\<close>

theorem compare_dfs_key_only_disjoint:
  "compare_dfs close (key_only [1]) (key_only [2]) [''id''] = Inl ValueError"
  using ex_columns_check(3) by (simp add: eval_defs ex_defs)

section \<open>Null cells\<close>

text \<open>
  C4. The claim: a non-key column that is null on one side and a value on the other
  always puts the row in \<open>diff\<close>. In \<open>ex_empty_col\<close> the column \<open>val\<close> is float64 and its
  cell for key 1 is null; in \<open>ex_text_col\<close> the cell for key 1 is the text \<open>a\<close>. Line 55
  sends the column to \<open>numpy.isclose\<close> because the old dtype is float64, and
  \<open>numpy.isclose\<close> raises \<open>TypeError\<close> on the object column at line 56: no \<open>diff\<close> is
  returned.
\<close>

theorem compare_dfs_null_against_text_raises:
  "cell (hd (rows ex_empty_col)) ''val'' = Null \<and>
   cell (hd (rows ex_text_col)) ''val'' = Str ''a'' \<and>
   key_of [''id''] (hd (rows ex_empty_col)) = key_of [''id''] (hd (rows ex_text_col)) \<and>
   compare_dfs close ex_empty_col ex_text_col [''id''] = Inl TypeError"
proof (intro conjI)
  show "compare_dfs close ex_empty_col ex_text_col [''id''] = Inl TypeError"
    using ex_columns_check(5) by (simp add: eval_defs ex_defs)
qed (simp_all add: cell_def key_of_def ex_defs)

section \<open>Integer cells\<close>

text \<open>
  C6. The claim: every row of \<open>new\<close> is the full row as it appears in the new relation.
  The old snapshot has key 1 and the new one key 2, in the int64 column \<open>n\<close> the new row
  holds \<open>2^53 + 1 = 9007199254740993\<close>. The old row has no partner, so the merge of line
  39 fills the new side of its row with \<open>NaN\<close> and converts the column \<open>n\<close> of the new
  side to float64: the row of \<open>new\<close> holds \<open>2^53 = 9007199254740992\<close>, which is not the
  cell of the new relation.
\<close>

theorem compare_dfs_new_row_rounded:
  "cell (hd (rows (ex_int 2 9007199254740993))) ''n'' = Num 9007199254740993 \<and>
   compare_dfs close (ex_int 1 0) (ex_int 2 9007199254740993) [''id''] =
     Inr \<lparr>diff = \<lparr>schema = [(''id'', Int64), (''n'', Float64)], rows = []\<rparr>,
          new = \<lparr>schema = [(''id'', Int64), (''n'', Float64)],
                 rows = [[(''id'', Num 2), (''n'', Num 9007199254740992)]]\<rparr>,
          remove = \<lparr>schema = [(''id'', Int64)], rows = [[(''id'', Num 1)]]\<rparr>\<rparr>"
proof (intro conjI)
  show "compare_dfs close (ex_int 1 0) (ex_int 2 9007199254740993) [''id''] =
     Inr \<lparr>diff = \<lparr>schema = [(''id'', Int64), (''n'', Float64)], rows = []\<rparr>,
          new = \<lparr>schema = [(''id'', Int64), (''n'', Float64)],
                 rows = [[(''id'', Num 2), (''n'', Num 9007199254740992)]]\<rparr>,
          remove = \<lparr>schema = [(''id'', Int64)], rows = [[(''id'', Num 1)]]\<rparr>\<rparr>"
    using ex_columns_check(6) by (simp add: eval_defs ex_defs)
qed (simp add: cell_def ex_defs)

section \<open>Null cells on valid inputs\<close>

lemma null_cell_differs:
  assumes "conforms d v" "v \<noteq> Null"
  shows "cell_differs close (merged_dtype n d) (merged_dtype n' d) (merged_cell n d Null) (merged_cell n' d v)
           = Inr True"
    and "cell_differs close (merged_dtype n d) (merged_dtype n' d) (merged_cell n d v) (merged_cell n' d Null)
           = Inr True"
  using assms
  by (cases d; cases v; cases n; cases n';
      simp add: cell_differs_def isclose_def notnull_def promote_def
          merged_dtype_def merged_cell_def astype_def astype_float64_def)+

text \<open>
  On valid inputs the null rule of lines 59 and 60 is as the specification has it. For a
  row of \<open>old_df\<close> and a row of \<open>new_df\<close> with the same key: when every non-key column has
  the same cell in both rows, null against null included, the key is not in \<open>diff\<close>; when
  some non-key column is null in one row and a value in the other, the key is in \<open>diff\<close>.
\<close>

lemma compare_dfs_null_cells_valid:
  assumes v: "valid_inputs old_df new_df on"
    and ro: "ro \<in> set (rows old_df)" and rn: "rn \<in> set (rows new_df)"
    and k: "key_of on ro = key_of on rn"
  shows "\<exists>res. compare_dfs close old_df new_df on = Inr res \<and>
           ((\<forall>c \<in> set (val_cols old_df on). cell ro c = cell rn c) \<longrightarrow>
              key_of on rn \<notin> set (map (key_of on) (rows (diff res)))) \<and>
           ((\<exists>c \<in> set (val_cols old_df on). (cell ro c = Null) \<noteq> (cell rn c = Null)) \<longrightarrow>
              key_of on rn \<in> set (map (key_of on) (rows (diff res))))"
proof -
  note d = valid_inputsD[OF v]
  from compare_dfs_returns[OF v] obtain res where ok: "compare_dfs close old_df new_df on = Inr res"
    by blast
  have sub: "set (columns old_df) \<subseteq> set (columns new_df)" by (simp add: d(2))
  note iff = key_in_diff_iff[OF ok sub d(13,14) ro rn k]
  have 1: "\<not> row_changed close old_df new_df on (ro, rn)"
    if "\<forall>c \<in> set (val_cols old_df on). cell ro c = cell rn c"
    using that same_cell_col_unchanged[OF v _ ro] by (auto simp: row_changed_def)
  have 2: "col_changed close old_df new_df on ro rn c"
    if c: "c \<in> set (val_cols old_df on)" and n: "(cell ro c = Null) \<noteq> (cell rn c = Null)" for c
  proof -
    from c have c1: "c \<in> set (columns old_df)" by (simp add: val_cols_def)
    let ?d0 = "dtype_of (schema old_df) c"
    have co: "conforms ?d0 (cell ro c)" using d(7) ro c1 by (auto simp: well_typed_def)
    have cn: "conforms ?d0 (cell rn c)" using d(8) rn c1 by (auto simp: well_typed_def d(1) d(2))
    show ?thesis
    proof (cases "cell ro c = Null")
      case True
      with n have "cell rn c \<noteq> Null" by simp
      from null_cell_differs(1)[OF cn this] True show ?thesis
        by (simp add: col_changed_def old_dtype_def new_dtype_def old_cell_def new_cell_def
              d(1)[symmetric])
    next
      case False
      with n have e: "cell rn c = Null" by simp
      from null_cell_differs(2)[OF co False] e show ?thesis
        by (simp add: col_changed_def old_dtype_def new_dtype_def old_cell_def new_cell_def
              d(1)[symmetric])
    qed
  qed
  from 2 have 3: "row_changed close old_df new_df on (ro, rn)"
    if "\<exists>c \<in> set (val_cols old_df on). (cell ro c = Null) \<noteq> (cell rn c = Null)"
    using that by (auto simp: row_changed_def)
  from ok 1 3 show ?thesis unfolding iff[symmetric] by blast
qed

section \<open>Floating-point columns\<close>





section \<open>save_df\<close>

text \<open>
  C10. For every frame, path and flags, \<open>save_df\<close> raises \<open>AttributeError\<close> at line 163,
  where it reads \<open>os.path_str\<close>, before either \<open>to_hdf\<close> or \<open>to_csv\<close>; the file system
  is left as it was.
\<close>

theorem save_df_always_raises:
  "save_df fs df path_str index header = (Inl AttributeError, fs)"
  by (simp add: save_df_def getattr_os_def os_module_def)

text \<open>
  C8. The claim: a path with an extension other than \<open>.csv\<close> and \<open>.h5\<close> fails with an
  error for the unsupported format, and a path with one of the two extensions is written
  in that format. For the path \<open>out.csv\<close> on an empty file system the code raises
  \<open>AttributeError\<close> and writes nothing.
\<close>

theorem save_df_csv_not_written:
  "save_df Map.empty ex_old ''out.csv'' True True = (Inl AttributeError, Map.empty) \<and>
   snd (save_df Map.empty ex_old ''out.csv'' True True) ''out.csv'' = None"
  by (simp add: save_df_def getattr_os_def os_module_def)

section \<open>create_engine\<close>

lemma odbc_urls:
  assumes "\<forall>d \<in> set odbc_drivers. create_ok e (pyodbc_url up server database d) \<and>
             \<not> connect_ok e (pyodbc_url up server database d)"
  shows "create_ok e (pyodbc_url up server database ''?driver=ODBC+Driver+17+for+SQL+Server'')"
    "create_ok e (pyodbc_url up server database ''?driver=ODBC+Driver+13.1+for+SQL+Server'')"
    "create_ok e (pyodbc_url up server database ''?driver=ODBC+Driver+13+for+SQL+Server'')"
    "create_ok e (pyodbc_url up server database ''?driver=ODBC+Driver+11+for+SQL+Server'')"
    "create_ok e (pyodbc_url up server database ''?driver=SQL+Server+Native+Client+11.0'')"
    "\<not> connect_ok e (pyodbc_url up server database ''?driver=ODBC+Driver+17+for+SQL+Server'')"
    "\<not> connect_ok e (pyodbc_url up server database ''?driver=ODBC+Driver+13.1+for+SQL+Server'')"
    "\<not> connect_ok e (pyodbc_url up server database ''?driver=ODBC+Driver+13+for+SQL+Server'')"
    "\<not> connect_ok e (pyodbc_url up server database ''?driver=ODBC+Driver+11+for+SQL+Server'')"
    "\<not> connect_ok e (pyodbc_url up server database ''?driver=SQL+Server+Native+Client+11.0'')"
  using assms unfolding odbc_drivers_def by simp_all

text \<open>
  C9. The claim: when every driver of the fallback list fails to connect, \<open>create_engine\<close>
  does not raise and returns a typed failure that lists the drivers tried. In \<open>ex_env\<close>
  no driver connects, and the code returns the engine made for the last driver, which
  was never connected, after printing one line.
\<close>

theorem create_engine_exhausted_returns_engine:
  "create_engine ex_env ''mssql'' ''srv'' ''db'' None None =
     (Inr (Engine ''mssql+pyodbc://srv/db?driver=SQL+Server+Native+Client+11.0''),
      [''Install a proper ODBC mssql driver''])"
  by (simp add: create_engine_def mssql_engine_def credentials_def ex_env_def
        sa_create_engine_def pyodbc_url_def Let_def)

text \<open>
  C9, as the code has it: when pymssql cannot be used, \<open>sqlalchemy.create_engine\<close> accepts
  each of the five pyodbc URLs and none of them connects, \<open>create_engine\<close> does not raise:
  it prints \<open>Install a proper ODBC mssql driver\<close> and returns the unconnected engine of
  the last driver of the list, \<open>SQL Server Native Client 11.0\<close>.
\<close>

theorem create_engine_exhausted:
  assumes "\<not> (pymssql_importable e \<and>
              create_ok e (''mssql+pymssql://'' @ credentials username password @ server @ ''/'' @ database))"
    and "\<forall>d \<in> set odbc_drivers.
           create_ok e (pyodbc_url (credentials username password) server database d) \<and>
           \<not> connect_ok e (pyodbc_url (credentials username password) server database d)"
  shows "create_engine e ''mssql'' server database username password =
           (Inr (Engine (pyodbc_url (credentials username password) server database (last odbc_drivers))),
            [''Install a proper ODBC mssql driver''])"
proof -
  note u = odbc_urls[OF assms(2)]
  have "last odbc_drivers = ''?driver=SQL+Server+Native+Client+11.0''"
    by (simp add: odbc_drivers_def)
  then show ?thesis
    using assms(1) u
    by (simp add: create_engine_def mssql_engine_def sa_create_engine_def Let_def)
qed

theorem create_engine_exhausted_witness:
  "create_engine ex_env ''mssql'' ''srv'' ''db'' None None =
     (Inr (Engine (pyodbc_url (credentials None None) ''srv'' ''db'' (last odbc_drivers))),
      [''Install a proper ODBC mssql driver''])"
proof -
  have 1: "\<not> (pymssql_importable ex_env \<and>
        create_ok ex_env (''mssql+pymssql://'' @ credentials None None @ ''srv'' @ ''/'' @ ''db''))"
    by (simp add: ex_env_def)
  have 2: "\<forall>d \<in> set odbc_drivers.
        create_ok ex_env (pyodbc_url (credentials None None) ''srv'' ''db'' d) \<and>
        \<not> connect_ok ex_env (pyodbc_url (credentials None None) ''srv'' ''db'' d)"
    by (simp add: ex_env_def)
  from create_engine_exhausted[OF 1 2] show ?thesis .
qed

section \<open>The inputs are not written to\<close>

lemma merge_stage_store:
  assumes "merge_stage h a_old a_new a_on = (r, h')"
  shows "take (length h) h' = h"
    and "\<forall>a_rem1 a_add1 a_comp2. r = Inr (a_rem1, a_add1, a_comp2) \<longrightarrow>
           length h \<le> a_comp2 \<and> a_comp2 < length h'"
  using assms
  by (auto simp: merge_stage_def alloc_def Let_def split: if_splits sum.splits)

lemma select_stage_store:
  assumes "select_stage h a_old a_on a_comp2 = (r, h')" "n \<le> a_comp2" "a_comp2 < length h"
  shows "take n h' = take n h"
  using assms
  by (auto simp: select_stage_def alloc_def Let_def take_update_cancel split: sum.splits)

lemma diff_stage_store:
  assumes "diff_stage close h a_old a_on a_old_set a_new_set = (r, h')"
  shows "take (length h) h' = h"
  using assms
  by (auto simp: diff_stage_def alloc_diff_def alloc_def Let_def split: sum.splits)

lemma take_take_le: "take n h' = h \<Longrightarrow> m \<le> n \<Longrightarrow> take m h' = take m h"
  by (metis min.absorb1 take_take)

text \<open>
  C7. Whatever the store, the three addresses and the outcome, every object that was in
  the store before the call is the same object after it: in particular \<open>old_df\<close>,
  \<open>new_df\<close> and the list \<open>on\<close>. The writes of lines 44, 48 and 50 go to objects that
  \<open>compare_dfs\<close> allocated itself.
\<close>

theorem compare_dfs_st_inputs_unchanged:
  "take (length h) (snd (compare_dfs_st close h a_old a_new a_on)) = h \<and>
   snd (compare_dfs_st close h a_old a_new a_on) ! a_old = h ! a_old \<and>
   snd (compare_dfs_st close h a_old a_new a_on) ! a_new = h ! a_new \<and>
   snd (compare_dfs_st close h a_old a_new a_on) ! a_on = h ! a_on"
proof -
  let ?h' = "snd (compare_dfs_st close h a_old a_new a_on)"
  have pre: "take (length h) ?h' = h"
  proof (cases "is_frame h a_old \<and> is_frame h a_new \<and> is_list h a_on")
    case False
    then show ?thesis by (auto simp: compare_dfs_st_def)
  next
    case True
    obtain r1 h1 where s1: "merge_stage h a_old a_new a_on = (r1, h1)"
      by (cases "merge_stage h a_old a_new a_on")
    note m = merge_stage_store[OF s1]
    show ?thesis
    proof (cases r1)
      case (Inl e)
      with True s1 m(1) show ?thesis by (simp add: compare_dfs_st_def)
    next
      case (Inr t)
      obtain a_rem1 a_add1 a_comp2 where t: "t = (a_rem1, a_add1, a_comp2)" by (cases t)
      from m(2) Inr t have c2: "length h \<le> a_comp2" "a_comp2 < length h1" by auto
      obtain r2 h2 where s2: "select_stage h1 a_old a_on a_comp2 = (r2, h2)"
        by (cases "select_stage h1 a_old a_on a_comp2")
      from select_stage_store[OF s2 c2] m(1) have p2: "take (length h) h2 = h" by simp
      show ?thesis
      proof (cases r2)
        case (Inl e)
        with True s1 \<open>r1 = Inr t\<close> t s2 p2 show ?thesis by (simp add: compare_dfs_st_def)
      next
        case r2: (Inr u)
        obtain a_old_set a_new_set where u: "u = (a_old_set, a_new_set)" by (cases u)
        obtain r3 h3 where s3: "diff_stage close h2 a_old a_on a_old_set a_new_set = (r3, h3)"
          by (cases "diff_stage close h2 a_old a_on a_old_set a_new_set")
        have "length (take (length h) h2) = length h" using p2 by simp
        then have "length h \<le> length h2" by simp
        from take_take_le[OF diff_stage_store[OF s3] this] p2 have p3: "take (length h) h3 = h"
          by simp
        from True s1 \<open>r1 = Inr t\<close> t s2 r2 u s3 p3 show ?thesis
          by (cases r3) (simp_all add: compare_dfs_st_def)
      qed
    qed
  qed
  have nth: "?h' ! a = h ! a" if "a < length h" for a
  proof -
    from that have "take (length h) ?h' ! a = ?h' ! a" by simp
    with pre show ?thesis by simp
  qed
  have "?h' = h \<or> (a_old < length h \<and> a_new < length h \<and> a_on < length h)"
    by (auto simp: compare_dfs_st_def is_frame_def is_list_def)
  with pre nth show ?thesis by auto
qed

lemma merge_stage_eq:
  assumes "a_old < length h" "h ! a_old = Frame old_df" "a_new < length h" "h ! a_new = Frame new_df"
    "a_on < length h" "h ! a_on = StrList on"
  shows "merge_stage h a_old a_new a_on =
     (if columns_check old_df new_df then (Inl ValueError, h)
      else case merge_outer old_df new_df on of
          Inl e \<Rightarrow> (Inl e, h)
        | Inr m \<Rightarrow>
          (case loc m left_only on of
            Inl e \<Rightarrow> (Inl e, h @ [Merged m])
          | Inr r \<Rightarrow>
            (case loc m right_only (columns old_df) of
              Inl e \<Rightarrow> (Inl e, h @ [Merged m, Frame r])
            | Inr a \<Rightarrow>
               (Inr (Suc (length h), Suc (Suc (length h)), Suc (Suc (Suc (length h)))),
                h @ [Merged m, Frame r, Frame a, Frame (both_rows m)]))))"
  using assms
  by (simp add: merge_stage_def alloc_def Let_def frame_at_def list_at_def merged_at_def
        nth_append split: sum.splits)

lemma select_stage_eq:
  assumes "a_old < length h" "h ! a_old = Frame old_df" "a_on < length h" "h ! a_on = StrList on"
    and "h' = h @ [x, y, z, Frame comp2]" "a_comp2 = Suc (Suc (Suc (length h)))"
  shows "select_stage h' a_old a_on a_comp2 =
     (case getitem comp2 (on @ filter (str_in ''_x'') (columns comp2)) of
        Inl e \<Rightarrow> (Inl e, h @ [x, y, z, Frame comp2,
                      StrList (on @ filter (str_in ''_x'') (columns comp2))])
      | Inr old_sel \<Rightarrow>
        (case getitem comp2 (columns old_df) of
           Inl e \<Rightarrow> (Inl e, h @ [x, y, z, Frame comp2,
                      StrList (on @ filter (str_in ''_x'') (columns comp2)),
                      Frame (rename_columns old_sel)])
         | Inr new_set \<Rightarrow>
            (Inr (length h + 5, length h + 6),
             h @ [x, y, z, Frame comp2,
                      StrList (on @ filter (str_in ''_x'') (columns comp2)),
                      Frame (rename_columns old_sel), Frame new_set])))"
  using assms
  by (simp add: select_stage_def alloc_def Let_def frame_at_def list_at_def
        nth_append nth_list_update list_update_append setitem_isnull_id split: sum.splits)

lemma diff_stage_eq:
  assumes "a_old < length h" "h ! a_old = Frame old_df" "a_on < length h" "h ! a_on = StrList on"
    and "h' = h @ [x, y, z, u, v, Frame old_set, Frame new_set]"
    and "a_old_set = length h + 5" "a_new_set = length h + 6"
  shows "diff_stage close h' a_old a_on a_old_set a_new_set =
     (case sequence (map (comp_col close old_set new_set) (filter (\<lambda>c. c \<notin> set on) (columns old_df))) of
        Inl e \<Rightarrow> (Inl e, h')
      | Inr comp_list \<Rightarrow>
        (case any_axis1 (length (rows new_set)) comp_list of
           Inl e \<Rightarrow> (Inl e, h')
         | Inr comp_index \<Rightarrow>
            (Inr (length h + 7),
             h' @ [Frame \<lparr>schema = schema new_set,
                       rows = map snd (filter fst (zip comp_index (rows new_set)))\<rparr>])))"
  using assms
  by (simp add: diff_stage_def alloc_diff_def alloc_def Let_def frame_at_def list_at_def
        nth_append split: sum.splits)

text \<open>
  The function over the store computes what \<open>compare_dfs\<close> computes: the same error, or
  three new objects that hold \<open>diff\<close>, \<open>new\<close> and \<open>remove\<close>.
\<close>

lemma compare_dfs_st_refines:
  assumes "a_old < length h" "h ! a_old = Frame old_df" "a_new < length h" "h ! a_new = Frame new_df"
    "a_on < length h" "h ! a_on = StrList on"
  shows "case compare_dfs close old_df new_df on of
           Inl e \<Rightarrow> fst (compare_dfs_st close h a_old a_new a_on) = Inl e
         | Inr res \<Rightarrow>
             (\<exists>a_diff a_add1 a_rem1.
                fst (compare_dfs_st close h a_old a_new a_on) = Inr (a_diff, a_add1, a_rem1) \<and>
                length h \<le> a_diff \<and> length h \<le> a_add1 \<and> length h \<le> a_rem1 \<and>
                snd (compare_dfs_st close h a_old a_new a_on) ! a_diff = Frame (diff res) \<and>
                snd (compare_dfs_st close h a_old a_new a_on) ! a_add1 = Frame (new res) \<and>
                snd (compare_dfs_st close h a_old a_new a_on) ! a_rem1 = Frame (remove res))"
proof -
  have k: "is_frame h a_old" "is_frame h a_new" "is_list h a_on"
    using assms by (simp_all add: is_frame_def is_list_def)
  show ?thesis
    unfolding compare_dfs_st_def compare_dfs_def
      merge_stage_eq[OF assms]
    using k
    by (auto simp: Let_def setitem_isnull_id
          select_stage_eq[OF assms(1,2,5,6) refl refl]
          diff_stage_eq[OF assms(1,2,5,6) refl refl refl]
          nth_append
        split: sum.splits)
qed

end
